theory Spec2Isabelle
  imports
    Main
    "HOL-Library.Char_ord"
    "HOL-Library.List_Lexorder"
    "HOL-Library.Sublist"
    "HOL-Library.Multiset"
begin

section \<open>JavaScript values, objects and strings\<close>

text \<open>
  A JavaScript string is a sequence of UTF-16 code units. The model covers the strings
  whose code units are below 256: a \<^typ>\<open>char\<close> is one code unit, \<^term>\<open>of_char c\<close> its
  number. On these strings \<open>encodeURIComponent\<close> never raises \<open>URIError\<close> (there are no
  surrogates), and the order of \<^typ>\<open>string\<close> (lexicographic, by \<^term>\<open>of_char\<close>, a proper
  prefix first) is the code-unit order that \<open>Array.prototype.sort\<close> uses on strings.

  A number is modelled by an integer: the numbers that request parameters carry
  (\<open>per_page: 5\<close>, ids), printed in decimal as \<open>ToString\<close> prints an integer of magnitude
  below \<open>2^53\<close>. Fractions, \<open>NaN\<close> and the infinities have no value in the model.

  An object is the list of its own enumerable properties in the order \<open>for ... in\<close>
  visits them; the keys of a well-formed object are distinct. An object built by
  assignments lists its properties in the order of their first assignment. (JavaScript
  visits integer-like keys first; the consumers of the objects built here do not depend
  on the order: \<open>#normalizeQueryString\<close> sorts the keys, and the transport reads the
  dispatched configuration by key.) Objects are plain: no inherited enumerable
  properties, and no key such as \<open>__proto__\<close> whose assignment is not a property write.
\<close>

datatype jsval =
    JUndefined
  | JNull
  | JBool bool
  | JNum int
  | JStr string
  | JObj "(string \<times> jsval) list"
  | JArr "jsval list"

type_synonym jsobject = "(string \<times> jsval) list"

text \<open>\<open>typeof value\<close>: \<open>null\<close>, plain objects and arrays are all \<open>'object'\<close>.\<close>

fun typeof :: "jsval \<Rightarrow> string" where
  "typeof JUndefined = ''undefined''"
| "typeof JNull = ''object''"
| "typeof (JBool b) = ''boolean''"
| "typeof (JNum n) = ''number''"
| "typeof (JStr s) = ''string''"
| "typeof (JObj ps) = ''object''"
| "typeof (JArr xs) = ''object''"

text \<open>Truthiness, as \<open>if (data)\<close> and \<open>!options.url\<close> test it.\<close>

fun truthy :: "jsval \<Rightarrow> bool" where
  "truthy JUndefined = False"
| "truthy JNull = False"
| "truthy (JBool b) = b"
| "truthy (JNum n) = (n \<noteq> 0)"
| "truthy (JStr s) = (s \<noteq> [])"
| "truthy (JObj ps) = True"
| "truthy (JArr xs) = True"

text \<open>\<open>obj[key] = value\<close>: an existing property keeps its place, a new one goes last.\<close>

primrec set_prop :: "string \<Rightarrow> jsval \<Rightarrow> jsobject \<Rightarrow> jsobject" where
  "set_prop key v [] = [(key, v)]"
| "set_prop key v (p # ps) = (if fst p = key then (key, v) # ps else p # set_prop key v ps)"

text \<open>\<open>obj[key]\<close>: \<open>undefined\<close> when the property is absent.\<close>

definition get_prop :: "jsobject \<Rightarrow> string \<Rightarrow> jsval" where
  "get_prop obj key = (case map_of obj key of Some v \<Rightarrow> v | None \<Rightarrow> JUndefined)"

text \<open>A run of assignments \<open>obj[k] = v\<close>, one for each pair of \<open>writes\<close> in turn.\<close>

definition assign_all :: "jsobject \<Rightarrow> jsobject \<Rightarrow> jsobject" where
  "assign_all obj writes = foldl (\<lambda>obj (k, v). set_prop k v obj) obj writes"

text \<open>
  The object literal \<open>{ ...a, ...b }\<close>: a fresh object that receives each own property of
  \<open>a\<close>, then each own property of \<open>b\<close>.
\<close>

definition spread :: "jsobject \<Rightarrow> jsobject \<Rightarrow> jsobject" where
  "spread a b = assign_all (assign_all [] a) b"

definition digit_char :: "nat \<Rightarrow> char" where
  "digit_char n = ''0123456789'' ! n"

function digits :: "nat \<Rightarrow> string" where
  "digits n = (if n < 10 then [digit_char n] else digits (n div 10) @ [digit_char (n mod 10)])"
  by pat_completeness auto
termination
  by (relation "measure id") auto

declare digits.simps [simp del]

definition number_to_string :: "int \<Rightarrow> string" where
  "number_to_string i = (if i < 0 then CHR ''-'' # digits (nat (- i)) else digits (nat i))"

fun join :: "string \<Rightarrow> string list \<Rightarrow> string" where
  "join sep [] = []"
| "join sep [x] = x"
| "join sep (x # y # ys) = x @ sep @ join sep (y # ys)"

text \<open>
  \<open>ToString\<close>, which \<open>encodeURIComponent\<close> applies to its argument. A plain object prints
  as \<open>[object Object]\<close>; an array joins its elements with commas, \<open>null\<close> and \<open>undefined\<close>
  elements printing as the empty string.
\<close>

fun toString :: "jsval \<Rightarrow> string" where
  "toString JUndefined = ''undefined''"
| "toString JNull = ''null''"
| "toString (JBool b) = (if b then ''true'' else ''false'')"
| "toString (JNum n) = number_to_string n"
| "toString (JStr s) = s"
| "toString (JObj ps) = ''[object Object]''"
| "toString (JArr xs) =
     join '','' (map (\<lambda>x. if x = JUndefined \<or> x = JNull then [] else toString x) xs)"

text \<open>
  The properties \<open>for (const prop in value)\<close> visits, which are also the ones
  \<open>...value\<close> copies: none for \<open>null\<close> and \<open>undefined\<close>, the indices for an array. Only
  called on values that are \<open>undefined\<close> or whose \<open>typeof\<close> is \<open>'object'\<close>.
\<close>

fun for_in :: "jsval \<Rightarrow> jsobject" where
  "for_in (JObj ps) = ps"
| "for_in (JArr xs) = zip (map digits [0..<length xs]) xs"
| "for_in v = []"

subsection \<open>\<open>encodeURIComponent\<close>\<close>

text \<open>
  Every code unit except \<open>A-Z a-z 0-9 - _ . ! ~ * ' ( )\<close> is written as the
  percent-escaped bytes of its UTF-8 encoding, with upper-case hexadecimal digits:
  one byte below 128, two bytes from 128 to 255.
\<close>

definition unreserved :: "char \<Rightarrow> bool" where
  "unreserved c =
     (c \<in> set (''ABCDEFGHIJKLMNOPQRSTUVWXYZabcdefghijklmnopqrstuvwxyz0123456789-_.!~*()''
               @ [CHR 0x27]))"

definition hex_digit :: "nat \<Rightarrow> char" where
  "hex_digit n = ''0123456789ABCDEF'' ! n"

definition percent_byte :: "nat \<Rightarrow> string" where
  "percent_byte b = [CHR ''%'', hex_digit (b div 16), hex_digit (b mod 16)]"

definition encode_unit :: "char \<Rightarrow> string" where
  "encode_unit c =
     (if unreserved c then [c]
      else if (of_char c :: nat) < 128 then percent_byte (of_char c)
      else percent_byte (192 + of_char c div 64) @ percent_byte (128 + of_char c mod 64))"

definition encodeURIComponent :: "string \<Rightarrow> string" where
  "encodeURIComponent s = concat (map encode_unit s)"

subsection \<open>\<open>String.prototype.replace\<close>\<close>

text \<open>
  \<open>s.replace(/p/g, r)\<close> for a regular expression that is a literal, non-empty text \<open>p\<close>
  and a replacement without \<open>$\<close>: every occurrence, found from left to right and not
  overlapping, becomes \<open>r\<close>.
\<close>

function replace_all :: "string \<Rightarrow> string \<Rightarrow> string \<Rightarrow> string" where
  "replace_all p r [] = []"
| "replace_all p r (c # cs) =
     (if p \<noteq> [] \<and> prefix p (c # cs) then r @ replace_all p r (drop (length p) (c # cs))
      else c # replace_all p r cs)"
  by pat_completeness auto
termination
  by (relation "measure (\<lambda>(p, r, s). length s)") (auto simp: neq_Nil_conv)

declare replace_all.simps [simp del]

text \<open>The position of the first occurrence of \<open>p\<close> in \<open>s\<close>, as \<open>indexOf\<close> finds it.\<close>

fun index_of :: "string \<Rightarrow> string \<Rightarrow> nat option" where
  "index_of p [] = (if p = [] then Some 0 else None)"
| "index_of p (c # cs) =
     (if prefix p (c # cs) then Some 0 else map_option Suc (index_of p cs))"

text \<open>
  The replacement text of \<open>replace\<close> with a string pattern: \<open>$$\<close> is a dollar sign,
  \<open>$&\<close> the matched text, \<open>$`\<close> the text before the match, \<open>$'\<close> the text after.
\<close>

fun expand_replacement :: "string \<Rightarrow> string \<Rightarrow> string \<Rightarrow> string \<Rightarrow> string" where
  "expand_replacement m pre post (d # c # r) =
     (if d = CHR ''$'' \<and> c = CHR ''$'' then CHR ''$'' # expand_replacement m pre post r
      else if d = CHR ''$'' \<and> c = CHR ''&'' then m @ expand_replacement m pre post r
      else if d = CHR ''$'' \<and> c = CHR 0x60 then pre @ expand_replacement m pre post r
      else if d = CHR ''$'' \<and> c = CHR 0x27 then post @ expand_replacement m pre post r
      else d # expand_replacement m pre post (c # r))"
| "expand_replacement m pre post r = r"

text \<open>\<open>s.replace(p, r)\<close> with a string pattern: only the first occurrence is replaced.\<close>

definition js_replace :: "string \<Rightarrow> string \<Rightarrow> string \<Rightarrow> string" where
  "js_replace s p r =
     (case index_of p s of
        None \<Rightarrow> s
      | Some i \<Rightarrow>
          take i s
          @ expand_replacement p (take i s) (drop (i + length p) s) r
          @ drop (i + length p) s)"

section \<open>The collaborators\<close>

text \<open>
  The URL parser (\<open>url-parse\<close>), the OAuth signer (\<open>oauth-1.0a\<close> with \<open>create-hmac\<close>) and
  \<open>JSON.stringify\<close> are not code of this library; the model takes what they return as
  parameters:
  \<^item> \<open>url_hostname u\<close> is \<open>new Url(u).hostname\<close>;
  \<^item> \<open>url_query u\<close> is \<open>new Url(u, null, true).query\<close>, the parsed query string of \<open>u\<close>;
  \<^item> \<open>oauth_authorize key secret u method\<close> is what
    \<open>new OAuth(...).authorize({ url: u, method: method })\<close> returns in this request;
  \<^item> \<open>json_stringify\<close> is \<open>JSON.stringify\<close>.
\<close>

record externals =
  url_hostname :: "string \<Rightarrow> string"
  url_query :: "string \<Rightarrow> jsobject"
  oauth_authorize :: "string \<Rightarrow> string \<Rightarrow> string \<Rightarrow> string \<Rightarrow> jsobject"
  json_stringify :: "jsval \<Rightarrow> string"

section \<open>Parameter flattener and query canonicalizer\<close>

text \<open>The inner loop of \<open>#parseParamsObject\<close>, over the properties of one nested value.\<close>

fun parseItems :: "string \<Rightarrow> jsobject \<Rightarrow> jsobject \<Rightarrow> jsobject" where
  "parseItems key [] query = query"
| "parseItems key ((prop, v) # rest) query =
     parseItems key rest (set_prop (key @ ''['' @ prop @ '']'') v query)"

text \<open>\<open>#parseParamsObject(params, query)\<close>: returns \<open>query\<close> after the assignments.\<close>

fun parseParamsObject :: "jsobject \<Rightarrow> jsobject \<Rightarrow> jsobject" where
  "parseParamsObject [] query = query"
| "parseParamsObject ((key, v) # rest) query =
     parseParamsObject rest
       (if typeof v = ''object'' then parseItems key (for_in v) query
        else set_prop key v query)"

text \<open>
  The assignments that \<open>#parseParamsObject\<close> performs, in their order, as a list of
  pairs: those of the inner loop for an entry that takes the \<open>typeof value === 'object'\<close>
  branch, the entry itself otherwise.
\<close>

definition entry_writes :: "string \<times> jsval \<Rightarrow> jsobject" where
  "entry_writes e =
     (if typeof (snd e) = ''object''
      then map (\<lambda>inner. (fst e @ ''['' @ fst inner @ '']'', snd inner)) (for_in (snd e))
      else [e])"

definition param_writes :: "jsobject \<Rightarrow> jsobject" where
  "param_writes params = concat (map entry_writes params)"

text \<open>The key of a pair: \<open>encodeURIComponent(k).replace(/%5B/g, '[').replace(/%5D/g, ']')\<close>.\<close>

definition encode_key :: "string \<Rightarrow> string" where
  "encode_key k = replace_all ''%5D'' '']'' (replace_all ''%5B'' ''['' (encodeURIComponent k))"

text \<open>The loop of \<open>#normalizeQueryString\<close> over the sorted keys, \<open>queryString\<close> threaded.\<close>

fun buildQueryString :: "jsobject \<Rightarrow> string list \<Rightarrow> string \<Rightarrow> string" where
  "buildQueryString query [] queryString = queryString"
| "buildQueryString query (k # ks) queryString =
     buildQueryString query ks
       ((if queryString \<noteq> [] then queryString @ ''&'' else queryString)
        @ encode_key k @ ''='' @ encodeURIComponent (toString (get_prop query k)))"

text \<open>
  \<open>#normalizeQueryString(url, params)\<close>. \<open>url.indexOf('?') === -1\<close> says that \<open>url\<close> has no
  question mark, \<open>Object.keys(params).length === 0\<close> that \<open>params\<close> has no property, and
  \<open>url.split('?')[0]\<close> is \<open>url\<close> up to its first question mark.
\<close>

definition normalizeQueryString :: "externals \<Rightarrow> string \<Rightarrow> jsobject \<Rightarrow> string" where
  "normalizeQueryString env url params =
     (if CHR ''?'' \<notin> set url \<and> length (map fst params) = 0 then url
      else
        let query = parseParamsObject params (url_query env url);
            values = sort (map fst query)
        in takeWhile (\<lambda>c. c \<noteq> CHR ''?'') url @ ''?'' @ buildQueryString query values [])"

section \<open>Configuration and construction\<close>

text \<open>
  The \<open>options\<close> argument of the constructor. An absent option is \<open>None\<close>; the options that
  the library uses as text are strings, \<open>queryStringAuth\<close> a boolean, \<open>axiosConfig\<close> an
  object, \<open>timeout\<close> any value (\<open>undefined\<close> when absent).
\<close>

record client_options =
  opt_url :: "string option"
  opt_consumerKey :: "string option"
  opt_consumerSecret :: "string option"
  opt_wpAPIPrefix :: "string option"
  opt_version :: "string option"
  opt_encoding :: "string option"
  opt_queryStringAuth :: "bool option"
  opt_port :: "string option"
  opt_timeout :: jsval
  opt_axiosConfig :: "jsobject option"

text \<open>The empty options object \<open>{ }\<close>: every option is absent.\<close>

definition no_options :: client_options where
  "no_options =
     \<lparr>opt_url = None, opt_consumerKey = None, opt_consumerSecret = None,
      opt_wpAPIPrefix = None, opt_version = None, opt_encoding = None,
      opt_queryStringAuth = None, opt_port = None, opt_timeout = JUndefined,
      opt_axiosConfig = None\<rparr>"

text \<open>\<open>!opt\<close> for a textual option: absent or the empty string.\<close>

definition falsy :: "string option \<Rightarrow> bool" where
  "falsy opt = (case opt of None \<Rightarrow> True | Some s \<Rightarrow> s = [])"

text \<open>\<open>opt || dflt\<close> for a textual option.\<close>

definition or_default :: "string option \<Rightarrow> string \<Rightarrow> string" where
  "or_default opt dflt = (case opt of None \<Rightarrow> dflt | Some s \<Rightarrow> if s = [] then dflt else s)"

text \<open>
  \<open>opt || dflt\<close> for an option whose present values are all truthy, and the plain read of
  an option that the constructor has already checked to be present.
\<close>

definition present_or :: "'a option \<Rightarrow> 'a \<Rightarrow> 'a" where
  "present_or opt dflt = (case opt of None \<Rightarrow> dflt | Some x \<Rightarrow> x)"

text \<open>\<open>new OptionsException(message)\<close>.\<close>

record exception =
  exc_name :: string
  exc_message :: string

definition OptionsException :: "string \<Rightarrow> exception" where
  "OptionsException msg = \<lparr>exc_name = ''Options Error'', exc_message = msg\<rparr>"

text \<open>The fields of a constructed client (\<open>this.url\<close>, \<open>this.port\<close>, ...).\<close>

record client =
  this_classVersion :: string
  this_url :: string
  this_wpAPIPrefix :: string
  this_version :: string
  this_isHttps :: bool
  this_consumerKey :: string
  this_consumerSecret :: string
  this_encoding :: string
  this_queryStringAuth :: bool
  this_port :: string
  this_timeout :: jsval
  this_axiosConfig :: jsobject

text \<open>\<open>/^https/i.test(url)\<close>: the first five code units are \<open>https\<close> in either case.\<close>

definition to_lower :: "char \<Rightarrow> char" where
  "to_lower c =
     (if (65::nat) \<le> of_char c \<and> (of_char c :: nat) \<le> 90 then char_of (of_char c + (32::nat)) else c)"

definition test_https :: "string \<Rightarrow> bool" where
  "test_https url = (map to_lower (take 5 url) = ''https'')"

text \<open>\<open>#setDefaultsOptions(opt)\<close>, with the class version the constructor has stored.\<close>

definition setDefaultsOptions :: "string \<Rightarrow> client_options \<Rightarrow> client" where
  "setDefaultsOptions classVersion opt =
     \<lparr>this_classVersion = classVersion,
      this_url = present_or (opt_url opt) [],
      this_wpAPIPrefix = or_default (opt_wpAPIPrefix opt) ''wp-json'',
      this_version = or_default (opt_version opt) ''wc/v3'',
      this_isHttps = test_https (present_or (opt_url opt) []),
      this_consumerKey = present_or (opt_consumerKey opt) [],
      this_consumerSecret = present_or (opt_consumerSecret opt) [],
      this_encoding = or_default (opt_encoding opt) ''utf8'',
      this_queryStringAuth = present_or (opt_queryStringAuth opt) False,
      this_port = or_default (opt_port opt) [],
      this_timeout = opt_timeout opt,
      this_axiosConfig = present_or (opt_axiosConfig opt) []\<rparr>"

text \<open>\<open>options = options || { }\<close>; the argument is \<open>None\<close> when the constructor gets none.\<close>

definition given :: "client_options option \<Rightarrow> client_options" where
  "given options = (case options of None \<Rightarrow> no_options | Some opt \<Rightarrow> opt)"

text \<open>
  The constructor of \<open>index.js\<close>: the three checks in their order, each raising, then the
  defaults.
\<close>

definition constructor :: "client_options option \<Rightarrow> exception + client" where
  "constructor options =
     (let options = given options in
      if falsy (opt_url options) then Inl (OptionsException ''url is required'')
      else if falsy (opt_consumerKey options) then Inl (OptionsException ''consumerKey is required'')
      else if falsy (opt_consumerSecret options)
        then Inl (OptionsException ''consumerSecret is required'')
      else Inr (setDefaultsOptions ''1.0.2'' options))"

text \<open>The constructor of the second source file, which differs in the class version.\<close>

definition constructor_part_000 :: "client_options option \<Rightarrow> exception + client" where
  "constructor_part_000 options =
     (let options = given options in
      if falsy (opt_url options) then Inl (OptionsException ''url is required'')
      else if falsy (opt_consumerKey options) then Inl (OptionsException ''consumerKey is required'')
      else if falsy (opt_consumerSecret options)
        then Inl (OptionsException ''consumerSecret is required'')
      else Inr (setDefaultsOptions ''1.0.4'' options))"

section \<open>URL builder\<close>

text \<open>\<open>s.slice(-1)\<close>: the last code unit, or the empty string.\<close>

definition slice_last :: "string \<Rightarrow> string" where
  "slice_last s = (if s = [] then [] else [last s])"

text \<open>\<open>#getUrl(endpoint, params)\<close>.\<close>

definition getUrl :: "externals \<Rightarrow> client \<Rightarrow> string \<Rightarrow> jsobject \<Rightarrow> string" where
  "getUrl env c endpoint params =
     (let api = this_wpAPIPrefix c @ ''/'';
          url = (if slice_last (this_url c) = ''/'' then this_url c else this_url c @ ''/'');
          url = url @ api @ this_version c @ ''/'' @ endpoint;
          url = (if this_port c \<noteq> []
                 then (let hostname = url_hostname env url
                       in js_replace url hostname (hostname @ '':'' @ this_port c))
                 else url)
      in if \<not> this_isHttps c then normalizeQueryString env url params else url)"

section \<open>Request dispatcher\<close>

text \<open>
  \<open>#request\<close> up to the merge with \<open>axiosConfig\<close>: the \<open>options\<close> object as it stands after
  the \<open>if (data)\<close> block. The two source files agree on this part.
\<close>

definition request_options ::
  "externals \<Rightarrow> client \<Rightarrow> string \<Rightarrow> string \<Rightarrow> jsval \<Rightarrow> jsobject \<Rightarrow> jsobject" where
  "request_options env c method endpoint data params =
     (let url = getUrl env c endpoint params;
          options =
            [(''url'', JStr url),
             (''method'', JStr method),
             (''responseEncoding'', JStr (this_encoding c)),
             (''timeout'', this_timeout c),
             (''responseType'', JStr ''json''),
             (''headers'',
                JObj [(''User-Agent'',
                         JStr (''WooCommerce REST API - JS Client/'' @ this_classVersion c)),
                      (''Accept'', JStr ''application/json'')])];
          options =
            (if this_isHttps c then
               (let options =
                      (if this_queryStringAuth c
                       then set_prop ''params''
                              (JObj [(''consumer_key'', JStr (this_consumerKey c)),
                                     (''consumer_secret'', JStr (this_consumerSecret c))])
                              options
                       else set_prop ''auth''
                              (JObj [(''username'', JStr (this_consumerKey c)),
                                     (''password'', JStr (this_consumerSecret c))])
                              options)
                in set_prop ''params''
                     (JObj (spread (for_in (get_prop options ''params'')) params)) options)
             else set_prop ''params''
                    (JObj (oauth_authorize env (this_consumerKey c) (this_consumerSecret c)
                             url method))
                    options)
      in if truthy data
         then set_prop ''data'' (JStr (json_stringify env data))
                (set_prop ''headers''
                   (JObj (set_prop ''Content-Type'' (JStr ''application/json;charset=utf-8'')
                            (for_in (get_prop options ''headers''))))
                   options)
         else options)"

text \<open>
  \<open>#request\<close> of \<open>index.js\<close>: \<open>options = { ...options, ...this.axiosConfig }\<close>, handed to
  \<open>axios\<close>. The result is the configuration that is dispatched.
\<close>

definition request ::
  "externals \<Rightarrow> client \<Rightarrow> string \<Rightarrow> string \<Rightarrow> jsval \<Rightarrow> jsobject \<Rightarrow> jsobject" where
  "request env c method endpoint data params =
     spread (request_options env c method endpoint data params) (this_axiosConfig c)"

text \<open>
  \<open>#request\<close> of the second source file: \<open>config = { ...this.axiosConfig, ...options }\<close>,
  handed to a fresh \<open>axios\<close> instance (whose interceptors add the timing metadata, which
  is not modelled).
\<close>

definition request_part_000 ::
  "externals \<Rightarrow> client \<Rightarrow> string \<Rightarrow> string \<Rightarrow> jsval \<Rightarrow> jsobject \<Rightarrow> jsobject" where
  "request_part_000 env c method endpoint data params =
     spread (this_axiosConfig c) (request_options env c method endpoint data params)"

text \<open>The five public operations of \<open>index.js\<close>; \<open>params\<close> is \<open>{ }\<close> when omitted.\<close>

datatype operation =
    Delete string jsobject
  | Get string jsobject
  | Options string jsobject
  | Post string jsval jsobject
  | Put string jsval jsobject

fun perform :: "externals \<Rightarrow> client \<Rightarrow> operation \<Rightarrow> jsobject" where
  "perform env c (Delete endpoint params) = request env c ''delete'' endpoint JNull params"
| "perform env c (Get endpoint params) = request env c ''get'' endpoint JNull params"
| "perform env c (Options endpoint params) = request env c ''options'' endpoint JNull params"
| "perform env c (Post endpoint data params) = request env c ''post'' endpoint data params"
| "perform env c (Put endpoint data params) = request env c ''put'' endpoint data params"

text \<open>
  A caller's \<open>new WooCommerceRestApi(options)\<close> followed by one operation on the new
  client: an exception of the constructor leaves before anything is dispatched.
\<close>

definition construct_then_perform ::
  "externals \<Rightarrow> client_options option \<Rightarrow> operation \<Rightarrow> exception + jsobject" where
  "construct_then_perform env options op =
     (case constructor options of
        Inl e \<Rightarrow> Inl e
      | Inr c \<Rightarrow> Inr (perform env c op))"

section \<open>The specification's words\<close>

text \<open>
  The flattening as the specification describes it, entry by entry: an entry whose value
  is a nested mapping (an object or an array, whose keys are its indices) becomes one
  entry \<open>key[childKey]\<close> for each inner entry, with the inner value as it is; an entry with
  any other value stays as it is under its own key.
\<close>

definition is_nested :: "jsval \<Rightarrow> bool" where
  "is_nested v = (case v of JObj ps \<Rightarrow> True | JArr xs \<Rightarrow> True | _ \<Rightarrow> False)"

definition expand_entry :: "string \<times> jsval \<Rightarrow> jsobject" where
  "expand_entry e =
     (if is_nested (snd e)
      then map (\<lambda>inner. (fst e @ ''['' @ fst inner @ '']'', snd inner)) (for_in (snd e))
      else [e])"

definition expand_params :: "jsobject \<Rightarrow> jsobject" where
  "expand_params params = concat (map expand_entry params)"

text \<open>
  The base of the URL builder: the configured URL without its trailing slash, if it has
  one.
\<close>

definition strip_slash :: "string \<Rightarrow> string" where
  "strip_slash u = (if u \<noteq> [] \<and> last u = CHR ''/'' then butlast u else u)"

text \<open>
  The percent-encoding of a key as the specification describes it: the escaping of
  \<open>encodeURIComponent\<close>, except that the two brackets stay as they are.
\<close>

definition bracket_key :: "string \<Rightarrow> string" where
  "bracket_key k =
     concat (map (\<lambda>c. if c = CHR ''['' \<or> c = CHR '']'' then [c] else encode_unit c) k)"

text \<open>The key after the first of the two replacements: only \<open>%5B\<close> is decoded.\<close>

definition open_key :: "string \<Rightarrow> string" where
  "open_key k = concat (map (\<lambda>c. if c = CHR ''['' then [c] else encode_unit c) k)"

text \<open>One emitted pair, and the canonical query string of a query object.\<close>

definition emit_pair :: "jsobject \<Rightarrow> string \<Rightarrow> string" where
  "emit_pair query k = bracket_key k @ ''='' @ encodeURIComponent (toString (get_prop query k))"

definition canonical_query :: "jsobject \<Rightarrow> string list \<Rightarrow> string" where
  "canonical_query query keys = join ''&'' (map (emit_pair query) keys)"

text \<open>
  The credentials as query parameters (present when \<open>queryStringAuth\<close> is set) and as the
  Basic-auth object, as \<open>#request\<close> writes them.
\<close>

definition credential_params :: "client \<Rightarrow> jsobject" where
  "credential_params c =
     (if this_queryStringAuth c
      then [(''consumer_key'', JStr (this_consumerKey c)),
            (''consumer_secret'', JStr (this_consumerSecret c))]
      else [])"

definition basic_auth :: "client \<Rightarrow> jsval" where
  "basic_auth c =
     JObj [(''username'', JStr (this_consumerKey c)), (''password'', JStr (this_consumerSecret c))]"

section \<open>Example collaborators and clients\<close>

text \<open>
  Modelled from the spec: the collaborators, whose code is not among the sources (they
  are dependencies of the library), on the inputs of the examples. The URLs of the
  examples have the form \<open>scheme://host/path\<close> in lower case and carry no user name,
  port, query string or fragment: the host name (\<open>hostname\<close>, the part the port is spliced
  after) is the text after \<open>//\<close> up to the next delimiter, and the parsed query is the
  empty object. The OAuth parameter set and the JSON text are stand-ins; no statement
  below depends on their shape. The general theorems hold for every collaborator.
\<close>

definition plain_hostname :: "string \<Rightarrow> string" where
  "plain_hostname u =
     (case index_of ''//'' u of
        None \<Rightarrow> []
      | Some i \<Rightarrow> takeWhile (\<lambda>c. c \<notin> set ''/:?#'') (drop (i + 2) u))"

definition plain_externals :: externals where
  "plain_externals =
     \<lparr>url_hostname = plain_hostname,
      url_query = (\<lambda>u. []),
      oauth_authorize =
        (\<lambda>key secret u method.
           [(''oauth_consumer_key'', JStr key), (''oauth_signature_method'', JStr ''HMAC-SHA256'')]),
      json_stringify = toString\<rparr>"

definition shop_options :: "string \<Rightarrow> client_options" where
  "shop_options u =
     no_options\<lparr>opt_url := Some u, opt_consumerKey := Some ''ck_1'',
       opt_consumerSecret := Some ''cs_2''\<rparr>"

definition https_options :: "bool \<Rightarrow> jsobject \<Rightarrow> client_options" where
  "https_options queryStringAuth axiosConfig =
     (shop_options ''https://shop.test'')
       \<lparr>opt_queryStringAuth := Some queryStringAuth, opt_axiosConfig := Some axiosConfig\<rparr>"

section \<open>Objects: assignments and lookups\<close>

lemma map_of_set_prop: "map_of (set_prop k v q) = (map_of q)(k \<mapsto> v)"
  by (induction q) (auto simp: fun_eq_iff)

lemma keys_set_prop:
  "map fst (set_prop k v q) = (if k \<in> fst ` set q then map fst q else map fst q @ [k])"
  by (induction q) auto

lemma keyset_set_prop: "fst ` set (set_prop k v q) = insert k (fst ` set q)"
  by (induction q) auto

lemma assign_all_Nil: "assign_all q [] = q"
  by (simp add: assign_all_def)

lemma assign_all_Cons: "assign_all q (w # ws) = assign_all (set_prop (fst w) (snd w) q) ws"
  by (simp add: assign_all_def case_prod_beta)

lemma assign_all_append: "assign_all q (xs @ ys) = assign_all (assign_all q xs) ys"
  by (simp add: assign_all_def)

lemma parseItems_assign:
  "parseItems key props q =
     assign_all q (map (\<lambda>inner. (key @ ''['' @ fst inner @ '']'', snd inner)) props)"
  by (induction props arbitrary: q) (auto simp: assign_all_Nil assign_all_Cons)

lemma parseParamsObject_assign: "parseParamsObject ps q = assign_all q (param_writes ps)"
proof (induction ps arbitrary: q)
  case Nil
  then show ?case by (simp add: param_writes_def assign_all_Nil)
next
  case (Cons e ps)
  obtain key v where e: "e = (key, v)" by (cases e)
  show ?case
    using Cons.IH
    by (simp add: e param_writes_def entry_writes_def parseItems_assign
        assign_all_append assign_all_Cons assign_all_Nil)
qed

lemma set_prop_fresh: "k \<notin> fst ` set q \<Longrightarrow> set_prop k v q = q @ [(k, v)]"
  by (induction q) auto

lemma assign_all_fresh:
  "distinct (map fst ws) \<Longrightarrow> fst ` set ws \<inter> fst ` set q = {} \<Longrightarrow> assign_all q ws = q @ ws"
proof (induction ws arbitrary: q)
  case Nil
  then show ?case by (simp add: assign_all_Nil)
next
  case (Cons w ws)
  have fresh: "fst w \<notin> fst ` set q" using Cons.prems(2) by auto
  have "assign_all (q @ [(fst w, snd w)]) ws = (q @ [(fst w, snd w)]) @ ws"
    using Cons.prems by (intro Cons.IH) auto
  then show ?case
    by (simp add: assign_all_Cons set_prop_fresh [OF fresh])
qed

lemma map_of_assign_all: "map_of (assign_all q ws) = map_of q ++ map_of (rev ws)"
proof (induction ws arbitrary: q)
  case Nil
  then show ?case by (simp add: assign_all_Nil)
next
  case (Cons w ws)
  show ?case
    by (simp add: assign_all_Cons Cons.IH map_of_set_prop map_add_def fun_eq_iff
        split: option.splits)
qed

lemma keys_assign_all_mset:
  "distinct (map fst ws) \<Longrightarrow>
   mset (map fst (assign_all q ws)) =
     mset (map fst q) + mset (filter (\<lambda>k. k \<notin> fst ` set q) (map fst ws))"
proof (induction ws arbitrary: q)
  case Nil
  then show ?case by (simp add: assign_all_Nil)
next
  case (Cons w ws)
  have d: "distinct (map fst ws)" and nw: "fst w \<notin> set (map fst ws)"
    using Cons.prems by auto
  have keys: "fst ` set (set_prop (fst w) (snd w) q) = insert (fst w) (fst ` set q)"
    by (rule keyset_set_prop)
  have flt: "filter (\<lambda>k. k \<notin> insert (fst w) (fst ` set q)) (map fst ws)
             = filter (\<lambda>k. k \<notin> fst ` set q) (map fst ws)"
    using nw by (intro filter_cong refl) blast
  let ?q' = "set_prop (fst w) (snd w) q"
  have "mset (map fst (assign_all q (w # ws))) = mset (map fst (assign_all ?q' ws))"
    by (simp only: assign_all_Cons)
  also have "\<dots> = mset (map fst ?q') + mset (filter (\<lambda>k. k \<notin> fst ` set ?q') (map fst ws))"
    by (rule Cons.IH [OF d])
  also have "\<dots> = mset (map fst ?q') + mset (filter (\<lambda>k. k \<notin> fst ` set q) (map fst ws))"
    by (simp only: keys flt)
  also have "\<dots> = mset (map fst q) + mset (filter (\<lambda>k. k \<notin> fst ` set q) (map fst (w # ws)))"
    by (simp add: keys_set_prop)
  finally show ?case .
qed

section \<open>Percent-encoding and the two replacements\<close>

lemma join_Cons: "join sep (x # xs) = (if xs = [] then x else x @ sep @ join sep xs)"
  by (cases xs) auto

lemma hex_digit_in: "n < 16 \<Longrightarrow> hex_digit n \<in> set ''0123456789ABCDEF''"
  unfolding hex_digit_def by (rule nth_mem) simp

lemma hex_digit_not_percent: "n < 16 \<Longrightarrow> hex_digit n \<noteq> CHR ''%''"
  using hex_digit_in [of n] by auto

lemma hex_digit_inj: "m < 16 \<Longrightarrow> n < 16 \<Longrightarrow> hex_digit m = hex_digit n \<longleftrightarrow> m = n"
  unfolding hex_digit_def by (subst nth_eq_iff_index_eq) simp_all

lemma hex_digit_5: "hex_digit 5 = CHR ''5''" and hex_digit_11: "hex_digit 11 = CHR ''B''"
  and hex_digit_13: "hex_digit 13 = CHR ''D''"
  by (simp_all add: hex_digit_def)

lemma replace_all_match:
  "p \<noteq> [] \<Longrightarrow> prefix p (c # cs) \<Longrightarrow>
   replace_all p r (c # cs) = r @ replace_all p r (drop (length p) (c # cs))"
  by (simp add: replace_all.simps del: drop_Suc_Cons)

lemma replace_all_skip:
  "\<not> prefix p (c # cs) \<Longrightarrow> replace_all p r (c # cs) = c # replace_all p r cs"
  by (simp add: replace_all.simps)

lemma percent_byte_inj: "a < 256 \<Longrightarrow> b < 256 \<Longrightarrow> percent_byte a = percent_byte b \<longleftrightarrow> a = b"
proof -
  assume a: "a < 256" and b: "b < 256"
  have "percent_byte a = percent_byte b \<longleftrightarrow> a div 16 = b div 16 \<and> a mod 16 = b mod 16"
    using a b by (simp add: percent_byte_def hex_digit_inj)
  also have "\<dots> \<longleftrightarrow> a = b"
    by (metis div_mult_mod_eq)
  finally show ?thesis .
qed

lemma percent_byte_Cons: "percent_byte b = CHR ''%'' # [hex_digit (b div 16), hex_digit (b mod 16)]"
  by (simp add: percent_byte_def)

lemma length_percent_byte: "length (percent_byte b) = 3"
  by (simp add: percent_byte_def)

lemma prefix_percent_byte:
  "prefix (percent_byte t) (percent_byte b @ s) \<longleftrightarrow> percent_byte t = percent_byte b"
  by (simp add: percent_byte_def)

lemma prefix_percent_byte_other:
  "c \<noteq> CHR ''%'' \<Longrightarrow> \<not> prefix (percent_byte t) (c # s)"
  by (simp add: percent_byte_def)

lemma replace_all_other:
  "c \<noteq> CHR ''%'' \<Longrightarrow> replace_all (percent_byte t) r (c # s) = c # replace_all (percent_byte t) r s"
  by (rule replace_all_skip) (rule prefix_percent_byte_other)

lemma percent_byte_not_Nil: "percent_byte t \<noteq> []"
  by (simp add: percent_byte_def)

lemma replace_all_percent_byte:
  assumes "t < 256" "b < 256"
  shows "replace_all (percent_byte t) r (percent_byte b @ s) =
           (if b = t then r else percent_byte b) @ replace_all (percent_byte t) r s"
proof (cases "b = t")
  case True
  have e: "percent_byte t @ s = CHR ''%'' # (hex_digit (t div 16) # hex_digit (t mod 16) # s)"
    by (simp add: percent_byte_def)
  have p: "prefix (percent_byte t) (CHR ''%'' # (hex_digit (t div 16) # hex_digit (t mod 16) # s))"
    unfolding e [symmetric] by simp
  have "replace_all (percent_byte t) r (percent_byte t @ s) =
          r @ replace_all (percent_byte t) r (drop (length (percent_byte t)) (percent_byte t @ s))"
    unfolding e by (rule replace_all_match [OF percent_byte_not_Nil p])
  then show ?thesis using True by simp
next
  case False
  have ne: "percent_byte t \<noteq> percent_byte b"
    using False assms by (simp add: percent_byte_inj)
  have x: "hex_digit (b div 16) \<noteq> CHR ''%''" and y: "hex_digit (b mod 16) \<noteq> CHR ''%''"
    using assms by (simp_all add: hex_digit_not_percent)
  have e: "percent_byte b @ s = CHR ''%'' # (hex_digit (b div 16) # hex_digit (b mod 16) # s)"
    by (simp add: percent_byte_def)
  have np: "\<not> prefix (percent_byte t) (CHR ''%'' # (hex_digit (b div 16) # hex_digit (b mod 16) # s))"
    unfolding e [symmetric] using ne by (simp add: prefix_percent_byte)
  have "replace_all (percent_byte t) r (percent_byte b @ s) =
        CHR ''%'' # replace_all (percent_byte t) r (hex_digit (b div 16) # hex_digit (b mod 16) # s)"
    unfolding e by (rule replace_all_skip [OF np])
  also have "\<dots> = CHR ''%'' # hex_digit (b div 16) # hex_digit (b mod 16) # replace_all (percent_byte t) r s"
    by (simp only: replace_all_other [OF x] replace_all_other [OF y])
  also have "\<dots> = percent_byte b @ replace_all (percent_byte t) r s"
    by (simp add: percent_byte_def)
  finally show ?thesis using False by simp
qed

lemma unreserved_not_percent: "unreserved c \<Longrightarrow> c \<noteq> CHR ''%''"
  by (auto simp: unreserved_def)

lemma unreserved_not_bracket: "unreserved c \<Longrightarrow> c \<noteq> CHR ''['' \<and> c \<noteq> CHR '']''"
  by (auto simp: unreserved_def)

lemma of_char_91: "(of_char c :: nat) = 91 \<longleftrightarrow> c = CHR ''[''"
proof -
  have "(of_char c :: nat) = of_char CHR ''['' \<longleftrightarrow> c = CHR ''[''" by (rule of_char_eq_iff)
  then show ?thesis by simp
qed

lemma of_char_93: "(of_char c :: nat) = 93 \<longleftrightarrow> c = CHR '']''"
proof -
  have "(of_char c :: nat) = of_char CHR '']'' \<longleftrightarrow> c = CHR '']''" by (rule of_char_eq_iff)
  then show ?thesis by simp
qed

lemma of_char_lt_256: "(of_char c :: nat) < 256"
  by simp

lemma encode_unit_cases:
  obtains (plain) "unreserved c" "encode_unit c = [c]"
  | (one) "\<not> unreserved c" "(of_char c :: nat) < 128" "encode_unit c = percent_byte (of_char c)"
  | (two) "\<not> unreserved c" "128 \<le> (of_char c :: nat)"
      "encode_unit c = percent_byte (192 + of_char c div 64) @ percent_byte (128 + of_char c mod 64)"
  by (cases "unreserved c"; cases "(of_char c :: nat) < 128") (auto simp: encode_unit_def)

lemma two_byte_bounds:
  "(192 + of_char c div 64 :: nat) < 256" "128 \<le> (192 + of_char c div 64 :: nat)"
  "(128 + of_char c mod 64 :: nat) < 256" "128 \<le> (128 + of_char c mod 64 :: nat)"
proof -
  have "\<And>n::nat. n < 256 \<Longrightarrow> 192 + n div 64 < 256" by arith
  from this [OF of_char_lt_256] show "(192 + of_char c div 64 :: nat) < 256" .
qed simp_all

lemma replace_all_encode_unit:
  assumes t: "t < 128"
  shows "replace_all (percent_byte t) r (encode_unit c @ s) =
           (if of_char c = t \<and> \<not> unreserved c then r else encode_unit c)
           @ replace_all (percent_byte t) r s"
proof (cases c rule: encode_unit_cases)
  case plain
  then show ?thesis
    by (simp add: replace_all_other unreserved_not_percent)
next
  case one
  have "replace_all (percent_byte t) r (percent_byte (of_char c) @ s) =
          (if of_char c = t then r else percent_byte (of_char c)) @ replace_all (percent_byte t) r s"
    using t by (intro replace_all_percent_byte) simp_all
  then show ?thesis using one by simp
next
  case two
  let ?hi = "192 + of_char c div 64 :: nat" and ?lo = "128 + of_char c mod 64 :: nat"
  have hi: "replace_all (percent_byte t) r (percent_byte ?hi @ (percent_byte ?lo @ s)) =
          percent_byte ?hi @ replace_all (percent_byte t) r (percent_byte ?lo @ s)"
    using t replace_all_percent_byte [of t ?hi r "percent_byte ?lo @ s"] two_byte_bounds [of c]
    by simp
  have lo: "replace_all (percent_byte t) r (percent_byte ?lo @ s) =
          percent_byte ?lo @ replace_all (percent_byte t) r s"
    using t replace_all_percent_byte [of t ?lo r s] two_byte_bounds [of c]
    by simp
  have "of_char c \<noteq> t" using two(2) t by simp
  then show ?thesis using two hi lo by simp
qed

lemma sublist_percent_other:
  "c \<noteq> CHR ''%'' \<Longrightarrow> sublist (percent_byte t) (c # s) \<longleftrightarrow> sublist (percent_byte t) s"
  by (simp add: sublist_Cons_right prefix_percent_byte_other)

lemma sublist_percent_byte:
  assumes "t < 256" "b < 256" "b \<noteq> t"
  shows "sublist (percent_byte t) (percent_byte b @ s) \<longleftrightarrow> sublist (percent_byte t) s"
proof -
  have ne: "percent_byte t \<noteq> percent_byte b"
    using assms by (simp add: percent_byte_inj)
  have x: "hex_digit (b div 16) \<noteq> CHR ''%''" and y: "hex_digit (b mod 16) \<noteq> CHR ''%''"
    using assms by (simp_all add: hex_digit_not_percent)
  have e: "percent_byte b @ s = CHR ''%'' # (hex_digit (b div 16) # hex_digit (b mod 16) # s)"
    by (simp add: percent_byte_def)
  have np: "\<not> prefix (percent_byte t) (CHR ''%'' # (hex_digit (b div 16) # hex_digit (b mod 16) # s))"
    unfolding e [symmetric] using ne by (simp add: prefix_percent_byte)
  have "sublist (percent_byte t) (percent_byte b @ s) \<longleftrightarrow>
        sublist (percent_byte t) (hex_digit (b div 16) # hex_digit (b mod 16) # s)"
    unfolding e using np by (simp only: sublist_Cons_right) simp
  also have "\<dots> \<longleftrightarrow> sublist (percent_byte t) s"
    by (simp only: sublist_percent_other [OF x] sublist_percent_other [OF y])
  finally show ?thesis .
qed

lemma sublist_encode_unit:
  assumes t: "t < 128" and c: "of_char c \<noteq> t"
  shows "sublist (percent_byte t) (encode_unit c @ s) \<longleftrightarrow> sublist (percent_byte t) s"
proof (cases c rule: encode_unit_cases)
  case plain
  then show ?thesis by (simp add: sublist_percent_other unreserved_not_percent)
next
  case one
  then show ?thesis using t c by (simp add: sublist_percent_byte)
next
  case two
  let ?hi = "192 + of_char c div 64 :: nat" and ?lo = "128 + of_char c mod 64 :: nat"
  have "sublist (percent_byte t) (percent_byte ?hi @ (percent_byte ?lo @ s)) \<longleftrightarrow>
        sublist (percent_byte t) (percent_byte ?lo @ s)"
    using t two_byte_bounds [of c] by (intro sublist_percent_byte) simp_all
  also have "\<dots> \<longleftrightarrow> sublist (percent_byte t) s"
    using t two_byte_bounds [of c] by (intro sublist_percent_byte) simp_all
  finally show ?thesis using two by simp
qed

lemma percent_5B: "''%5B'' = percent_byte 91" and percent_5D: "''%5D'' = percent_byte 93"
  by (simp_all add: percent_byte_def hex_digit_def)

lemma not_unreserved_bracket: "\<not> unreserved CHR ''[''" "\<not> unreserved CHR '']''"
  by (simp_all add: unreserved_def)

lemma replace_5B: "replace_all ''%5B'' ''['' (encodeURIComponent k) = open_key k"
proof (induction k)
  case Nil
  then show ?case by (simp add: encodeURIComponent_def open_key_def replace_all.simps)
next
  case (Cons c k)
  have "replace_all (percent_byte 91) ''['' (encode_unit c @ encodeURIComponent k) =
          (if of_char c = (91::nat) \<and> \<not> unreserved c then ''['' else encode_unit c)
          @ replace_all (percent_byte 91) ''['' (encodeURIComponent k)"
    by (rule replace_all_encode_unit) simp
  moreover have "(of_char c = (91::nat) \<and> \<not> unreserved c) \<longleftrightarrow> c = CHR ''[''"
    using not_unreserved_bracket by (auto simp: of_char_91)
  ultimately show ?case
    using Cons.IH by (simp add: percent_5B [symmetric] encodeURIComponent_def open_key_def)
qed

lemma replace_5D: "replace_all ''%5D'' '']'' (open_key k) = bracket_key k"
proof (induction k)
  case Nil
  then show ?case by (simp add: bracket_key_def open_key_def replace_all.simps)
next
  case (Cons c k)
  show ?case
  proof (cases "c = CHR ''[''")
    case True
    have "replace_all (percent_byte 93) '']'' (CHR ''['' # open_key k) =
            CHR ''['' # replace_all (percent_byte 93) '']'' (open_key k)"
      by (rule replace_all_other) simp
    then show ?thesis
      using True Cons.IH by (simp add: percent_5D [symmetric] bracket_key_def open_key_def)
  next
    case False
    have "replace_all (percent_byte 93) '']'' (encode_unit c @ open_key k) =
            (if of_char c = (93::nat) \<and> \<not> unreserved c then '']'' else encode_unit c)
            @ replace_all (percent_byte 93) '']'' (open_key k)"
      by (rule replace_all_encode_unit) simp
    moreover have "(of_char c = (93::nat) \<and> \<not> unreserved c) \<longleftrightarrow> c = CHR '']''"
      using not_unreserved_bracket by (auto simp: of_char_93)
    ultimately show ?thesis
      using False Cons.IH by (simp add: percent_5D [symmetric] bracket_key_def open_key_def)
  qed
qed

lemma encode_key_bracket_key: "encode_key k = bracket_key k"
  by (simp add: encode_key_def replace_5B replace_5D)

lemma bracket_key_no_escape:
  assumes "t = 91 \<or> t = 93"
  shows "\<not> sublist (percent_byte t) (bracket_key k)"
proof (induction k)
  case Nil
  then show ?case by (simp add: bracket_key_def percent_byte_def)
next
  case (Cons c k)
  have t: "t < 128" using assms by auto
  show ?case
  proof (cases "c = CHR ''['' \<or> c = CHR '']''")
    case True
    then have "c \<noteq> CHR ''%''" by auto
    then have "sublist (percent_byte t) (c # bracket_key k) \<longleftrightarrow> sublist (percent_byte t) (bracket_key k)"
      by (rule sublist_percent_other)
    then show ?thesis using True Cons.IH by (auto simp add: bracket_key_def)
  next
    case False
    then have "of_char c \<noteq> t" using assms by (auto simp: of_char_91 of_char_93)
    then have "sublist (percent_byte t) (encode_unit c @ bracket_key k) \<longleftrightarrow> sublist (percent_byte t) (bracket_key k)"
      by (rule sublist_encode_unit [OF t])
    then show ?thesis using False Cons.IH by (simp add: bracket_key_def)
  qed
qed

lemma set_percent_byte:
  assumes "b < 256"
  shows "set (percent_byte b) \<subseteq> insert CHR ''%'' (set ''0123456789ABCDEF'')"
proof -
  define H where "H = set ''0123456789ABCDEF''"
  have "b div 16 < 16" "b mod 16 < 16" using assms by simp_all
  then have "hex_digit (b div 16) \<in> H" "hex_digit (b mod 16) \<in> H"
    unfolding H_def by (simp_all only: hex_digit_in)
  then have "set (percent_byte b) \<subseteq> insert CHR ''%'' H"
    by (simp add: percent_byte_def)
  then show ?thesis unfolding H_def .
qed

lemma set_encode_unit:
  "set (encode_unit c) \<subseteq> {x. unreserved x} \<union> insert CHR ''%'' (set ''0123456789ABCDEF'')"
proof (cases c rule: encode_unit_cases)
  case plain
  then show ?thesis by simp
next
  case one
  have "set (percent_byte (of_char c)) \<subseteq> insert CHR ''%'' (set ''0123456789ABCDEF'')"
    by (rule set_percent_byte) simp
  then show ?thesis unfolding one(3) by blast
next
  case two
  have "set (percent_byte (192 + of_char c div 64)) \<subseteq> insert CHR ''%'' (set ''0123456789ABCDEF'')"
    "set (percent_byte (128 + of_char c mod 64)) \<subseteq> insert CHR ''%'' (set ''0123456789ABCDEF'')"
    using two_byte_bounds [of c] by (intro set_percent_byte; simp)+
  then show ?thesis unfolding two(3) set_append by blast
qed

lemma encodeURIComponent_no_bracket:
  "CHR ''['' \<notin> set (encodeURIComponent s)" "CHR '']'' \<notin> set (encodeURIComponent s)"
proof -
  have "set (encodeURIComponent s) \<subseteq> {x. unreserved x} \<union> insert CHR ''%'' (set ''0123456789ABCDEF'')"
    unfolding encodeURIComponent_def set_concat set_map using set_encode_unit by blast
  then show "CHR ''['' \<notin> set (encodeURIComponent s)" "CHR '']'' \<notin> set (encodeURIComponent s)"
    using not_unreserved_bracket by auto
qed

section \<open>The query string as a join of pairs\<close>

lemma buildQueryString_join:
  "buildQueryString query ks acc =
     (if ks = [] then acc
      else (if acc = [] then [] else acc @ ''&'') @ canonical_query query ks)"
  unfolding canonical_query_def emit_pair_def encode_key_bracket_key [symmetric]
proof (induction ks arbitrary: acc)
  case Nil
  then show ?case by simp
next
  case (Cons k ks)
  show ?case
    by (simp add: Cons.IH join_Cons)
qed

lemma buildQueryString_canonical: "buildQueryString query ks [] = canonical_query query ks"
  by (simp add: buildQueryString_join) (simp add: canonical_query_def)

lemma normalizeQueryString_canonical:
  "normalizeQueryString env url params =
     (if CHR ''?'' \<notin> set url \<and> params = [] then url
      else takeWhile (\<lambda>c. c \<noteq> CHR ''?'') url @ ''?''
           @ canonical_query (assign_all (url_query env url) (param_writes params))
               (sort (map fst (assign_all (url_query env url) (param_writes params)))))"
  by (simp add: normalizeQueryString_def Let_def parseParamsObject_assign
      buildQueryString_canonical)

section \<open>Properties of the parameter flattener\<close>

lemma assign_all_distinct: "distinct (map fst ws) \<Longrightarrow> assign_all [] ws = ws"
  using assign_all_fresh [of ws "[]"] by simp

lemma expand_entry_writes: "snd e \<noteq> JNull \<Longrightarrow> expand_entry e = entry_writes e"
  by (cases "snd e") (simp_all add: expand_entry_def entry_writes_def is_nested_def)

lemma expand_params_writes:
  "list_all (\<lambda>e. snd e \<noteq> JNull) params \<Longrightarrow> expand_params params = param_writes params"
  by (induction params) (simp_all add: expand_params_def param_writes_def expand_entry_writes)

lemma expand_params_scalar:
  "list_all (\<lambda>e. \<not> is_nested (snd e)) params \<Longrightarrow> expand_params params = params"
  by (induction params) (simp_all add: expand_params_def expand_entry_def)

text \<open>
  Claim C4, as the code has it. The flattener expands exactly one nesting level. For
  every mapping without a \<open>null\<close> value and every starting query object,
  \<open>#parseParamsObject\<close> performs the assignments of the one-level expansion
  \<^const>\<open>expand_params\<close>, entry by entry and in order: an entry whose value is a nested mapping
  gives \<open>key[childKey] = value\<close> for each inner entry, with the inner value as it is (an
  object two levels deep is handed on whole); any other entry is assigned under its own
  key; a later assignment to a key replaces an earlier one. When the expanded keys are
  distinct the result on the empty query is the expansion itself; \<open>{a: {b: 1}}\<close> gives
  \<open>{"a[b]": 1}\<close>; and a flat mapping (scalar values, distinct keys) is returned as it is,
  so that flattening it again changes nothing.
\<close>

theorem parseParamsObject_one_level:
  "(list_all (\<lambda>e. snd e \<noteq> JNull) params \<longrightarrow>
      parseParamsObject params query = assign_all query (expand_params params))
   \<and> (list_all (\<lambda>e. snd e \<noteq> JNull) params \<and> distinct (map fst (expand_params params)) \<longrightarrow>
        parseParamsObject params [] = expand_params params)
   \<and> parseParamsObject [(''a'', JObj [(''b'', JNum 1)])] [] = [(''a[b]'', JNum 1)]
   \<and> expand_params [(''a'', JObj [(''b'', JNum 1)])] = [(''a[b]'', JNum 1)]
   \<and> parseParamsObject [(key, JObj [(prop, JObj inner)])] []
        = [(key @ ''['' @ prop @ '']'', JObj inner)]
   \<and> (list_all (\<lambda>e. \<not> is_nested (snd e) \<and> snd e \<noteq> JNull) params
        \<and> distinct (map fst params) \<longrightarrow>
        parseParamsObject params [] = params
        \<and> parseParamsObject (parseParamsObject params []) [] = parseParamsObject params [])"
proof (intro conjI impI)
  show "parseParamsObject params query = assign_all query (expand_params params)"
    if "list_all (\<lambda>e. snd e \<noteq> JNull) params"
    using that by (simp add: parseParamsObject_assign expand_params_writes)
  show "parseParamsObject params [] = expand_params params"
    if "list_all (\<lambda>e. snd e \<noteq> JNull) params \<and> distinct (map fst (expand_params params))"
  proof -
    have "param_writes params = expand_params params"
      using that by (simp add: expand_params_writes)
    then show ?thesis
      using that by (simp add: parseParamsObject_assign assign_all_distinct)
  qed
  show "parseParamsObject [(''a'', JObj [(''b'', JNum 1)])] [] = [(''a[b]'', JNum 1)]"
    by simp
  show "expand_params [(''a'', JObj [(''b'', JNum 1)])] = [(''a[b]'', JNum 1)]"
    by (simp add: expand_params_def expand_entry_def is_nested_def)
  show "parseParamsObject [(key, JObj [(prop, JObj inner)])] []
        = [(key @ ''['' @ prop @ '']'', JObj inner)]"
    by simp
  assume flat: "list_all (\<lambda>e. \<not> is_nested (snd e) \<and> snd e \<noteq> JNull) params
        \<and> distinct (map fst params)"
  then have n: "list_all (\<lambda>e. snd e \<noteq> JNull) params" and f: "list_all (\<lambda>e. \<not> is_nested (snd e)) params"
    by (simp_all add: list_all_iff)
  have e: "param_writes params = params"
    using expand_params_writes [OF n] expand_params_scalar [OF f] by simp
  show p: "parseParamsObject params [] = params"
    using flat by (simp add: parseParamsObject_assign e assign_all_distinct)
  show "parseParamsObject (parseParamsObject params []) [] = parseParamsObject params []"
    by (simp only: p)
qed

text \<open>
  The hypotheses of C4 hold at \<open>{per_page: 5, filter: {status: 'any'}}\<close> (no \<open>null\<close>,
  distinct expanded keys) and at the flat mapping \<open>{per_page: 5, status: 'any'}\<close>.
\<close>

theorem parseParamsObject_one_level_witness:
  "list_all (\<lambda>e. snd e \<noteq> JNull) [(''per_page'', JNum 5), (''filter'', JObj [(''status'', JStr ''any'')])]
   \<and> distinct (map fst (expand_params [(''per_page'', JNum 5), (''filter'', JObj [(''status'', JStr ''any'')])]))
   \<and> parseParamsObject [(''per_page'', JNum 5), (''filter'', JObj [(''status'', JStr ''any'')])] []
       = [(''per_page'', JNum 5), (''filter[status]'', JStr ''any'')]
   \<and> list_all (\<lambda>e. \<not> is_nested (snd e) \<and> snd e \<noteq> JNull)
         [(''per_page'', JNum 5), (''status'', JStr ''any'')]
   \<and> distinct (map fst [(''per_page'', JNum 5), (''status'', JStr ''any'')])
   \<and> parseParamsObject [(''per_page'', JNum 5), (''status'', JStr ''any'')] []
       = [(''per_page'', JNum 5), (''status'', JStr ''any'')]"
  using parseParamsObject_one_level
          [of "[(''per_page'', JNum 5), (''filter'', JObj [(''status'', JStr ''any'')])]" "[]"]
        parseParamsObject_one_level [of "[(''per_page'', JNum 5), (''status'', JStr ''any'')]" "[]"]
  by (simp add: expand_params_def expand_entry_def is_nested_def)

text \<open>
  Claim C4 as stated fails when two entries flatten to the same key: in
  \<open>{"a[b]": 2, a: {b: 1}}\<close> the value \<open>2\<close> does not pass through under its key, and in
  \<open>{a: {b: 1}, "a[b]": 2}\<close> the inner entry does not become \<open>a[b] = 1\<close>.
\<close>

theorem parseParamsObject_collision_counterexample:
  "parseParamsObject [(''a[b]'', JNum 2), (''a'', JObj [(''b'', JNum 1)])] [] = [(''a[b]'', JNum 1)]
   \<and> parseParamsObject [(''a'', JObj [(''b'', JNum 1)]), (''a[b]'', JNum 2)] [] = [(''a[b]'', JNum 2)]"
  by simp

section \<open>Properties of the query canonicalizer\<close>

text \<open>
  Claim C6 at a mapping of one empty nested object. \<open>{filter: {}}\<close> flattens to no entry,
  but the early exit of \<open>#normalizeQueryString\<close> counts the keys of \<open>params\<close> before the
  flattening: the mapping passes it, and the result is the URL up to its first question
  mark, a question mark, and the pairs of the URL's own query. At
  \<open>http://shop.test/products\<close>, which has no query string, that is the URL with a question
  mark appended, where the empty mapping returns the URL unchanged.
\<close>

theorem normalizeQueryString_empty_nested:
  "parseParamsObject [(key, JObj [])] [] = []
   \<and> normalizeQueryString env url [(key, JObj [])] =
       takeWhile (\<lambda>c. c \<noteq> CHR ''?'') url @ ''?''
       @ canonical_query (url_query env url) (sort (map fst (url_query env url)))
   \<and> canonical_query [] (sort (map fst ([] :: jsobject))) = []
   \<and> normalizeQueryString plain_externals ''http://shop.test/products'' [(''filter'', JObj [])]
       = ''http://shop.test/products?''
   \<and> normalizeQueryString plain_externals ''http://shop.test/products'' []
       = ''http://shop.test/products''"
  by (simp add: normalizeQueryString_canonical param_writes_def entry_writes_def assign_all_def
      canonical_query_def plain_externals_def)

lemma emit_pair_fun:
  "emit_pair query =
     (\<lambda>key. bracket_key key @ ''='' @ encodeURIComponent (toString (get_prop query key)))"
  by (rule ext) (simp add: emit_pair_def)

text \<open>
  Claim C3. In every canonicalized query string the key of a pair is the percent-encoding
  of the raw key with the brackets \<open>[\<close> and \<open>]\<close> left literal (\<^const>\<open>bracket_key\<close>): the two
  replacements decode exactly the \<open>%5B\<close> and \<open>%5D\<close> that \<open>encodeURIComponent\<close> wrote for a
  bracket, and neither escape is left anywhere in the key. The value of a pair is plain
  \<open>encodeURIComponent\<close>, which never writes a literal bracket: there the brackets stay
  encoded. The query string is the join of these pairs over the sorted keys.
\<close>

theorem encode_key_keeps_brackets:
  "encode_key k = bracket_key k
   \<and> \<not> sublist ''%5B'' (encode_key k)
   \<and> \<not> sublist ''%5D'' (encode_key k)
   \<and> CHR ''['' \<notin> set (encodeURIComponent (toString v))
   \<and> CHR '']'' \<notin> set (encodeURIComponent (toString v))
   \<and> normalizeQueryString env url params =
       (if CHR ''?'' \<notin> set url \<and> params = [] then url
        else takeWhile (\<lambda>c. c \<noteq> CHR ''?'') url @ ''?''
             @ join ''&''
                 (map (\<lambda>key. bracket_key key @ ''=''
                         @ encodeURIComponent
                             (toString (get_prop (parseParamsObject params (url_query env url)) key)))
                    (sort (map fst (parseParamsObject params (url_query env url))))))
   \<and> normalizeQueryString plain_externals ''http://shop.test/products''
         [(''filter[a]'', JStr ''[x]''), (''b'', JObj [(''c'', JStr '']'')])]
       = ''http://shop.test/products?b[c]=%5D&filter[a]=%5Bx%5D''"
proof (intro conjI)
  show "encode_key k = bracket_key k"
    by (rule encode_key_bracket_key)
  show "\<not> sublist ''%5B'' (encode_key k)"
    using bracket_key_no_escape [of 91 k] by (simp add: encode_key_bracket_key percent_5B)
  show "\<not> sublist ''%5D'' (encode_key k)"
    using bracket_key_no_escape [of 93 k] by (simp add: encode_key_bracket_key percent_5D)
  show "CHR ''['' \<notin> set (encodeURIComponent (toString v))"
    by (rule encodeURIComponent_no_bracket)
  show "CHR '']'' \<notin> set (encodeURIComponent (toString v))"
    by (rule encodeURIComponent_no_bracket)
  show "normalizeQueryString env url params =
       (if CHR ''?'' \<notin> set url \<and> params = [] then url
        else takeWhile (\<lambda>c. c \<noteq> CHR ''?'') url @ ''?''
             @ join ''&''
                 (map (\<lambda>key. bracket_key key @ ''=''
                         @ encodeURIComponent
                             (toString (get_prop (parseParamsObject params (url_query env url)) key)))
                    (sort (map fst (parseParamsObject params (url_query env url))))))"
    by (simp add: normalizeQueryString_canonical parseParamsObject_assign canonical_query_def
        emit_pair_fun)
  show "normalizeQueryString plain_externals ''http://shop.test/products''
         [(''filter[a]'', JStr ''[x]''), (''b'', JObj [(''c'', JStr '']'')])]
       = ''http://shop.test/products?b[c]=%5D&filter[a]=%5Bx%5D''"
    by code_simp
qed

lemma mset_concat_map_cong:
  "mset ps = mset qs \<Longrightarrow> mset (concat (map f ps)) = mset (concat (map f qs))"
proof -
  assume e: "mset ps = mset qs"
  have "\<And>xs. mset (concat (map f xs)) = sum_mset (image_mset (\<lambda>x. mset (f x)) (mset xs))"
    by (induct_tac xs) simp_all
  then show ?thesis using e by simp
qed

lemma emit_pair_cong: "map_of q = map_of q' \<Longrightarrow> emit_pair q = emit_pair q'"
  by (simp add: fun_eq_iff emit_pair_def get_prop_def)

lemma canonical_query_cong:
  "map_of q = map_of q' \<Longrightarrow> canonical_query q ks = canonical_query q' ks"
  using emit_pair_cong [of q q'] by (simp add: canonical_query_def)

lemma sort_mset_cong: "mset xs = mset ys \<Longrightarrow> sort xs = sort (ys :: string list)"
proof -
  assume "mset xs = mset ys"
  then have "mset (sort ys) = mset xs" by simp
  then show ?thesis by (rule properties_for_sort) simp
qed

lemma assign_all_permuted:
  assumes m: "mset ws = mset ws'" and d: "distinct (map fst ws)"
  shows "map_of (assign_all q ws) = map_of (assign_all q ws')"
    and "sort (map fst (assign_all q ws)) = sort (map fst (assign_all q ws'))"
proof -
  have mk: "mset (map fst ws) = mset (map fst ws')"
    using m by (metis mset_map)
  have d': "distinct (map fst ws')"
    using d mk by (metis mset_eq_imp_distinct_iff)
  have s: "set (rev ws) = set (rev ws')"
    using m by (metis mset_eq_setD set_rev)
  have dr: "distinct (map fst (rev ws))" "distinct (map fst (rev ws'))"
    using d d' by (simp_all add: rev_map [symmetric])
  have "map_of (rev ws) = map_of (rev ws')"
    using map_of_inject_set [OF dr] s by blast
  then show "map_of (assign_all q ws) = map_of (assign_all q ws')"
    by (simp only: map_of_assign_all)
  have "mset (filter (\<lambda>k. k \<notin> fst ` set q) (map fst ws))
        = mset (filter (\<lambda>k. k \<notin> fst ` set q) (map fst ws'))"
    using mk by (simp only: mset_filter)
  then have "mset (map fst (assign_all q ws)) = mset (map fst (assign_all q ws'))"
    by (simp only: keys_assign_all_mset [OF d] keys_assign_all_mset [OF d'])
  then show "sort (map fst (assign_all q ws)) = sort (map fst (assign_all q ws'))"
    by (rule sort_mset_cong)
qed

lemma normalizeQueryString_permuted:
  assumes m: "mset (param_writes ps) = mset (param_writes qs)"
    and d: "distinct (map fst (param_writes ps))"
    and nil: "ps = [] \<longleftrightarrow> qs = []"
  shows "normalizeQueryString env url ps = normalizeQueryString env url qs"
proof -
  note perm = assign_all_permuted [OF m d, of "url_query env url"]
  show ?thesis
    unfolding normalizeQueryString_canonical
    using nil perm(2) canonical_query_cong [OF perm(1)] by simp
qed

text \<open>
  Claim C1, as the code has it. For every URL, two parameter mappings give the same
  text whenever their flattened entries are the same set of pairs with pairwise distinct
  keys (and both mappings are empty or neither is): in particular two well-formed
  mappings (distinct keys) that hold the same set of key/value pairs in any order of
  insertion, and two mappings that differ in the order of the entries inside a nested
  object. For every mapping, with or without colliding keys, the text is the URL up to
  its first question mark, a question mark, and the pairs of the flattened query joined
  by \<open>&\<close> in ascending order of their raw keys (the order of \<^typ>\<open>string\<close>: by code unit, a
  proper prefix first).
\<close>

theorem normalizeQueryString_order_independent:
  "(set ps = set qs \<and> distinct (map fst ps) \<and> distinct (map fst qs)
      \<and> distinct (map fst (param_writes ps)) \<longrightarrow>
        normalizeQueryString env url ps = normalizeQueryString env url qs)
   \<and> (set (param_writes ps) = set (param_writes qs)
      \<and> distinct (map fst (param_writes ps)) \<and> distinct (map fst (param_writes qs))
      \<and> (ps = [] \<longleftrightarrow> qs = []) \<longrightarrow>
        normalizeQueryString env url ps = normalizeQueryString env url qs)
   \<and> (\<exists>query ks. sorted ks \<and> mset ks = mset (map fst query)
          \<and> query = parseParamsObject ps (url_query env url)
          \<and> normalizeQueryString env url ps =
              (if CHR ''?'' \<notin> set url \<and> ps = [] then url
               else takeWhile (\<lambda>c. c \<noteq> CHR ''?'') url @ ''?'' @ canonical_query query ks))"
proof (intro conjI impI)
  assume a: "set ps = set qs \<and> distinct (map fst ps) \<and> distinct (map fst qs)
      \<and> distinct (map fst (param_writes ps))"
  then have m: "mset ps = mset qs"
    by (simp add: set_eq_iff_mset_eq_distinct [symmetric] distinct_map)
  have mw: "mset (param_writes ps) = mset (param_writes qs)"
    unfolding param_writes_def by (rule mset_concat_map_cong [OF m])
  have nil: "ps = [] \<longleftrightarrow> qs = []"
    using a by (metis set_empty)
  show "normalizeQueryString env url ps = normalizeQueryString env url qs"
    using a by (intro normalizeQueryString_permuted [OF mw _ nil]) simp
next
  assume a: "set (param_writes ps) = set (param_writes qs)
      \<and> distinct (map fst (param_writes ps)) \<and> distinct (map fst (param_writes qs))
      \<and> (ps = [] \<longleftrightarrow> qs = [])"
  then have mw: "mset (param_writes ps) = mset (param_writes qs)"
    by (simp add: set_eq_iff_mset_eq_distinct [symmetric] distinct_map)
  show "normalizeQueryString env url ps = normalizeQueryString env url qs"
    using a by (intro normalizeQueryString_permuted [OF mw]) simp_all
next
  let ?query = "parseParamsObject ps (url_query env url)"
  show "\<exists>query ks. sorted ks \<and> mset ks = mset (map fst query)
          \<and> query = parseParamsObject ps (url_query env url)
          \<and> normalizeQueryString env url ps =
              (if CHR ''?'' \<notin> set url \<and> ps = [] then url
               else takeWhile (\<lambda>c. c \<noteq> CHR ''?'') url @ ''?'' @ canonical_query query ks)"
    by (rule exI [of _ ?query], rule exI [of _ "sort (map fst ?query)"])
       (simp add: normalizeQueryString_canonical parseParamsObject_assign)
qed

text \<open>
  The hypotheses of C1 hold at \<open>{b: 2, a: 1}\<close> and \<open>{a: 1, b: 2}\<close>, which both give
  \<open>...?a=1&b=2\<close>, and at \<open>{f: {y: 2, x: 1}}\<close> and \<open>{f: {x: 1, y: 2}}\<close>, which both give
  \<open>...?f[x]=1&f[y]=2\<close>.
\<close>

theorem normalizeQueryString_order_independent_witness:
  "set [(''b'', JNum 2), (''a'', JNum 1)] = set [(''a'', JNum 1), (''b'', JNum 2)]
   \<and> distinct (map fst (param_writes [(''b'', JNum 2), (''a'', JNum 1)]))
   \<and> normalizeQueryString plain_externals ''http://shop.test/products'' [(''b'', JNum 2), (''a'', JNum 1)]
      = normalizeQueryString plain_externals ''http://shop.test/products'' [(''a'', JNum 1), (''b'', JNum 2)]
   \<and> normalizeQueryString plain_externals ''http://shop.test/products'' [(''a'', JNum 1), (''b'', JNum 2)]
      = ''http://shop.test/products?a=1&b=2''
   \<and> set (param_writes [(''f'', JObj [(''y'', JNum 2), (''x'', JNum 1)])])
      = set (param_writes [(''f'', JObj [(''x'', JNum 1), (''y'', JNum 2)])])
   \<and> distinct (map fst (param_writes [(''f'', JObj [(''y'', JNum 2), (''x'', JNum 1)])]))
   \<and> normalizeQueryString plain_externals ''http://shop.test/products''
        [(''f'', JObj [(''y'', JNum 2), (''x'', JNum 1)])]
      = normalizeQueryString plain_externals ''http://shop.test/products''
        [(''f'', JObj [(''x'', JNum 1), (''y'', JNum 2)])]
   \<and> normalizeQueryString plain_externals ''http://shop.test/products''
        [(''f'', JObj [(''x'', JNum 1), (''y'', JNum 2)])]
      = ''http://shop.test/products?f[x]=1&f[y]=2''"
proof -
  have h: "set [(''b'', JNum 2), (''a'', JNum 1)] = set [(''a'', JNum 1), (''b'', JNum 2)]"
    "distinct (map fst [(''b'', JNum 2), (''a'', JNum 1)])"
    "distinct (map fst [(''a'', JNum 1), (''b'', JNum 2)])"
    "distinct (map fst (param_writes [(''b'', JNum 2), (''a'', JNum 1)]))"
    by (auto simp: param_writes_def entry_writes_def)
  have n: "set (param_writes [(''f'', JObj [(''y'', JNum 2), (''x'', JNum 1)])])
      = set (param_writes [(''f'', JObj [(''x'', JNum 1), (''y'', JNum 2)])])"
    "distinct (map fst (param_writes [(''f'', JObj [(''y'', JNum 2), (''x'', JNum 1)])]))"
    "distinct (map fst (param_writes [(''f'', JObj [(''x'', JNum 1), (''y'', JNum 2)])]))"
    by (auto simp: param_writes_def entry_writes_def)
  have v: "normalizeQueryString plain_externals ''http://shop.test/products'' [(''a'', JNum 1), (''b'', JNum 2)]
      = ''http://shop.test/products?a=1&b=2''"
    "normalizeQueryString plain_externals ''http://shop.test/products''
        [(''f'', JObj [(''x'', JNum 1), (''y'', JNum 2)])]
      = ''http://shop.test/products?f[x]=1&f[y]=2''"
    by code_simp+
  show ?thesis
    using h n v
      normalizeQueryString_order_independent
        [of "[(''b'', JNum 2), (''a'', JNum 1)]" "[(''a'', JNum 1), (''b'', JNum 2)]"
            plain_externals "''http://shop.test/products''"]
      normalizeQueryString_order_independent
        [of "[(''f'', JObj [(''y'', JNum 2), (''x'', JNum 1)])]"
            "[(''f'', JObj [(''x'', JNum 1), (''y'', JNum 2)])]"
            plain_externals "''http://shop.test/products''"]
    by simp
qed

text \<open>
  Claim C1 as stated fails when two entries flatten to the same key: \<open>{"a[b]": 1, a: {b: 2}}\<close>
  and \<open>{a: {b: 2}, "a[b]": 1}\<close> hold the same pairs, and the later assignment to \<open>a[b]\<close>
  wins in each.
\<close>

theorem normalizeQueryString_collision_counterexample:
  "set [(''a[b]'', JNum 1), (''a'', JObj [(''b'', JNum 2)])]
     = set [(''a'', JObj [(''b'', JNum 2)]), (''a[b]'', JNum 1)]
   \<and> normalizeQueryString plain_externals ''http://shop.test/products''
        [(''a[b]'', JNum 1), (''a'', JObj [(''b'', JNum 2)])] = ''http://shop.test/products?a[b]=2''
   \<and> normalizeQueryString plain_externals ''http://shop.test/products''
        [(''a'', JObj [(''b'', JNum 2)]), (''a[b]'', JNum 1)] = ''http://shop.test/products?a[b]=1''"
proof (intro conjI)
  show "set [(''a[b]'', JNum 1), (''a'', JObj [(''b'', JNum 2)])]
     = set [(''a'', JObj [(''b'', JNum 2)]), (''a[b]'', JNum 1)]"
    by auto
  show "normalizeQueryString plain_externals ''http://shop.test/products''
        [(''a[b]'', JNum 1), (''a'', JObj [(''b'', JNum 2)])] = ''http://shop.test/products?a[b]=2''"
    by code_simp
  show "normalizeQueryString plain_externals ''http://shop.test/products''
        [(''a'', JObj [(''b'', JNum 2)]), (''a[b]'', JNum 1)] = ''http://shop.test/products?a[b]=1''"
    by code_simp
qed

section \<open>Properties of the URL builder\<close>

lemma with_slash: "(if slice_last u = ''/'' then u else u @ ''/'') = strip_slash u @ ''/''"
  by (cases u rule: rev_cases) (auto simp: slice_last_def strip_slash_def)

lemma strip_slash_snoc: "u = [] \<or> last u \<noteq> CHR ''/'' \<Longrightarrow> strip_slash (u @ ''/'') = strip_slash u"
  by (auto simp: strip_slash_def)

lemma getUrl_assembled:
  "getUrl env c endpoint params =
     (let url = strip_slash (this_url c) @ ''/'' @ this_wpAPIPrefix c @ ''/'' @ this_version c
                  @ ''/'' @ endpoint;
          url = (if this_port c \<noteq> []
                 then js_replace url (url_hostname env url)
                        (url_hostname env url @ '':'' @ this_port c)
                 else url)
      in if this_isHttps c then url else normalizeQueryString env url params)"
  unfolding getUrl_def Let_def with_slash by simp

lemma shop_client:
  "u \<noteq> [] \<Longrightarrow> constructor (Some ((shop_options u)\<lparr>opt_port := p\<rparr>))
     = Inr (setDefaultsOptions ''1.0.2'' ((shop_options u)\<lparr>opt_port := p\<rparr>))"
  by (simp add: constructor_def given_def shop_options_def no_options_def falsy_def)

lemma shop_client_fields:
  "this_url (setDefaultsOptions v ((shop_options u)\<lparr>opt_port := p\<rparr>)) = u"
  "this_wpAPIPrefix (setDefaultsOptions v ((shop_options u)\<lparr>opt_port := p\<rparr>)) = ''wp-json''"
  "this_version (setDefaultsOptions v ((shop_options u)\<lparr>opt_port := p\<rparr>)) = ''wc/v3''"
  "this_port (setDefaultsOptions v ((shop_options u)\<lparr>opt_port := p\<rparr>)) = or_default p []"
  "this_isHttps (setDefaultsOptions v ((shop_options u)\<lparr>opt_port := p\<rparr>)) = test_https u"
  by (simp_all add: setDefaultsOptions_def shop_options_def no_options_def present_or_def
      or_default_def)

lemma test_https_http: "\<not> test_https ''http://p''" "\<not> test_https ''http://shop.test''"
  by (simp_all add: test_https_def to_lower_def)

lemma shop_client0:
  "u \<noteq> [] \<Longrightarrow> constructor (Some (shop_options u)) = Inr (setDefaultsOptions ''1.0.2'' (shop_options u))"
  by (simp add: constructor_def given_def shop_options_def no_options_def falsy_def)

lemma shop_client0_fields:
  "this_url (setDefaultsOptions v (shop_options u)) = u"
  "this_wpAPIPrefix (setDefaultsOptions v (shop_options u)) = ''wp-json''"
  "this_version (setDefaultsOptions v (shop_options u)) = ''wc/v3''"
  "this_port (setDefaultsOptions v (shop_options u)) = []"
  "this_isHttps (setDefaultsOptions v (shop_options u)) = test_https u"
  by (simp_all add: setDefaultsOptions_def shop_options_def no_options_def present_or_def
      or_default_def)

lemma per_page_pair:
  "bracket_key ''per_page'' = ''per_page''" "encodeURIComponent (number_to_string 5) = ''5''"
  by code_simp+

text \<open>
  Claim C5. For every base URL the URL builder assembles \<open>base/prefix/version/endpoint\<close>,
  where \<open>base\<close> is the configured URL without its trailing slash (\<^const>\<open>strip_slash\<close>): one
  slash stands between base and prefix whether or not the configured URL ends in a
  slash, so that a URL and the same URL with a slash appended build the same result.
  A configured port is then spliced in, and a plain-HTTP client canonicalizes the
  query; without a port an HTTPS client returns the assembled URL as it is. The client
  made from \<open>http://shop.test/\<close> with the default prefix and version builds, for the
  endpoint \<open>products\<close> and \<open>{per_page: 5}\<close>, the pre-sign URL
  \<open>http://shop.test/wp-json/wc/v3/products?per_page=5\<close>.
\<close>

theorem getUrl_single_slash:
  "getUrl env c endpoint params =
     (let url = strip_slash (this_url c) @ ''/'' @ this_wpAPIPrefix c @ ''/'' @ this_version c
                  @ ''/'' @ endpoint;
          url = (if this_port c \<noteq> []
                 then js_replace url (url_hostname env url)
                        (url_hostname env url @ '':'' @ this_port c)
                 else url)
      in if this_isHttps c then url else normalizeQueryString env url params)
   \<and> (this_port c = [] \<and> this_isHttps c \<longrightarrow>
        getUrl env c endpoint params =
          strip_slash (this_url c) @ ''/'' @ this_wpAPIPrefix c @ ''/'' @ this_version c
            @ ''/'' @ endpoint)
   \<and> (this_port c = [] \<and> \<not> this_isHttps c \<longrightarrow>
        getUrl env c endpoint params =
          normalizeQueryString env
            (strip_slash (this_url c) @ ''/'' @ this_wpAPIPrefix c @ ''/'' @ this_version c
               @ ''/'' @ endpoint) params)
   \<and> (this_url c = [] \<or> last (this_url c) \<noteq> CHR ''/'' \<longrightarrow>
        strip_slash (this_url c) = this_url c
        \<and> strip_slash (this_url c @ ''/'') = this_url c
        \<and> getUrl env (c\<lparr>this_url := this_url c @ ''/''\<rparr>) endpoint params
            = getUrl env c endpoint params)
   \<and> (url_query env ''http://shop.test/wp-json/wc/v3/products'' = [] \<longrightarrow>
        map_sum exc_message (\<lambda>c. getUrl env c ''products'' [(''per_page'', JNum 5)])
          (constructor (Some (shop_options ''http://shop.test/'')))
        = Inr ''http://shop.test/wp-json/wc/v3/products?per_page=5'')"
proof (intro conjI impI)
  show "getUrl env c endpoint params =
     (let url = strip_slash (this_url c) @ ''/'' @ this_wpAPIPrefix c @ ''/'' @ this_version c
                  @ ''/'' @ endpoint;
          url = (if this_port c \<noteq> []
                 then js_replace url (url_hostname env url)
                        (url_hostname env url @ '':'' @ this_port c)
                 else url)
      in if this_isHttps c then url else normalizeQueryString env url params)"
    by (rule getUrl_assembled)
  show "getUrl env c endpoint params =
          strip_slash (this_url c) @ ''/'' @ this_wpAPIPrefix c @ ''/'' @ this_version c
            @ ''/'' @ endpoint"
    if "this_port c = [] \<and> this_isHttps c"
    using that by (simp add: getUrl_assembled)
  show "getUrl env c endpoint params =
          normalizeQueryString env
            (strip_slash (this_url c) @ ''/'' @ this_wpAPIPrefix c @ ''/'' @ this_version c
               @ ''/'' @ endpoint) params"
    if "this_port c = [] \<and> \<not> this_isHttps c"
    using that by (simp add: getUrl_assembled)
next
  assume b: "this_url c = [] \<or> last (this_url c) \<noteq> CHR ''/''"
  then show s: "strip_slash (this_url c) = this_url c"
    by (auto simp: strip_slash_def)
  show "strip_slash (this_url c @ ''/'') = this_url c"
    using strip_slash_snoc [OF b] s by simp
  show "getUrl env (c\<lparr>this_url := this_url c @ ''/''\<rparr>) endpoint params = getUrl env c endpoint params"
    by (simp add: getUrl_assembled Let_def strip_slash_snoc [OF b])
next
  assume "url_query env ''http://shop.test/wp-json/wc/v3/products'' = []"
  then show "map_sum exc_message (\<lambda>c. getUrl env c ''products'' [(''per_page'', JNum 5)])
          (constructor (Some (shop_options ''http://shop.test/'')))
        = Inr ''http://shop.test/wp-json/wc/v3/products?per_page=5''"
  by (simp add: shop_client0 shop_client0_fields getUrl_assembled strip_slash_def
      test_https_def to_lower_def normalizeQueryString_canonical param_writes_def
      entry_writes_def assign_all_def canonical_query_def emit_pair_def get_prop_def per_page_pair)
qed

text \<open>
  The hypotheses of C5 hold for the client made from \<open>http://shop.test\<close>: no port, no
  trailing slash; with and without the slash it builds the URL of the example.
\<close>

theorem getUrl_single_slash_witness:
  "this_port (setDefaultsOptions ''1.0.2'' (shop_options ''http://shop.test'')) = []
   \<and> last (this_url (setDefaultsOptions ''1.0.2'' (shop_options ''http://shop.test''))) \<noteq> CHR ''/''
   \<and> getUrl plain_externals (setDefaultsOptions ''1.0.2'' (shop_options ''http://shop.test''))
         ''products'' [(''per_page'', JNum 5)]
       = ''http://shop.test/wp-json/wc/v3/products?per_page=5''
   \<and> getUrl plain_externals
         ((setDefaultsOptions ''1.0.2'' (shop_options ''http://shop.test''))
            \<lparr>this_url := ''http://shop.test/''\<rparr>)
         ''products'' [(''per_page'', JNum 5)]
       = ''http://shop.test/wp-json/wc/v3/products?per_page=5''
   \<and> url_query plain_externals ''http://shop.test/wp-json/wc/v3/products'' = []
   \<and> map_sum exc_message (\<lambda>c. getUrl plain_externals c ''products'' [(''per_page'', JNum 5)])
         (constructor (Some (shop_options ''http://shop.test/'')))
       = Inr ''http://shop.test/wp-json/wc/v3/products?per_page=5''"
proof -
  let ?c = "setDefaultsOptions ''1.0.2'' (shop_options ''http://shop.test'')"
  have u: "this_url ?c = ''http://shop.test''" and p: "this_port ?c = []"
    by (simp_all add: shop_client0_fields)
  have v: "getUrl plain_externals ?c ''products'' [(''per_page'', JNum 5)]
       = ''http://shop.test/wp-json/wc/v3/products?per_page=5''"
    by code_simp
  have q: "url_query plain_externals ''http://shop.test/wp-json/wc/v3/products'' = []"
    by (simp add: plain_externals_def)
  show ?thesis
    using getUrl_single_slash [of plain_externals ?c "''products''" "[(''per_page'', JNum 5)]"]
      u p v q
    by simp
qed

text \<open>
  Claim C8 at the base URL \<open>http://p\<close> with port \<open>8080\<close>. Whenever the URL parser reports
  the host name \<open>p\<close> for the assembled URL, \<open>url.replace(hostname, ...)\<close> rewrites the first
  \<open>p\<close> of the text, which is the one in \<open>http\<close>: the port lands in the scheme, not after the
  host.
\<close>

theorem getUrl_port_first_occurrence:
  "url_hostname env ''http://p/wp-json/wc/v3/products'' = ''p'' \<Longrightarrow>
   map_sum exc_message (\<lambda>c. getUrl env c ''products'' [])
     (constructor (Some ((shop_options ''http://p'')\<lparr>opt_port := Some ''8080''\<rparr>)))
   = Inr ''http:8080://p/wp-json/wc/v3/products''"
  by (simp add: shop_client shop_client_fields test_https_http getUrl_assembled strip_slash_def
      or_default_def js_replace_def normalizeQueryString_def)

text \<open>
  The hypothesis of C8 holds for the example parser, which reads the host name \<open>p\<close> off
  the assembled URL.
\<close>

theorem getUrl_port_first_occurrence_witness:
  "url_hostname plain_externals ''http://p/wp-json/wc/v3/products'' = ''p''
   \<and> map_sum exc_message (\<lambda>c. getUrl plain_externals c ''products'' [])
     (constructor (Some ((shop_options ''http://p'')\<lparr>opt_port := Some ''8080''\<rparr>)))
   = Inr ''http:8080://p/wp-json/wc/v3/products''"
proof -
  have h: "url_hostname plain_externals ''http://p/wp-json/wc/v3/products'' = ''p''"
    by code_simp
  show ?thesis
    using h getUrl_port_first_occurrence [OF h] by simp
qed

section \<open>Properties of the constructor\<close>

lemma constructor_given:
  "constructor options =
     (if falsy (opt_url (given options)) then Inl (OptionsException ''url is required'')
      else if falsy (opt_consumerKey (given options))
        then Inl (OptionsException ''consumerKey is required'')
      else if falsy (opt_consumerSecret (given options))
        then Inl (OptionsException ''consumerSecret is required'')
      else Inr (setDefaultsOptions ''1.0.2'' (given options)))"
  by (simp add: constructor_def Let_def)

lemma present_or_not_falsy: "\<not> falsy opt \<Longrightarrow> present_or opt [] \<noteq> []"
  by (cases opt) (simp_all add: falsy_def present_or_def)

text \<open>
  Claim C9. The constructor raises the configuration error exactly when one of \<open>url\<close>,
  \<open>consumerKey\<close>, \<open>consumerSecret\<close> is missing (absent or empty); the exception is named
  \<open>Options Error\<close> and its message names the first missing option in that order. The
  exception leaves before any request is built: constructing and then calling an
  operation yields the exception and no dispatched configuration. A client that was
  constructed has all three, and an operation on it yields a dispatched configuration,
  never an exception.
\<close>

theorem constructor_required_options:
  "(falsy (opt_url (given options)) \<longrightarrow>
      constructor options = Inl (OptionsException ''url is required''))
   \<and> (\<not> falsy (opt_url (given options)) \<and> falsy (opt_consumerKey (given options)) \<longrightarrow>
      constructor options = Inl (OptionsException ''consumerKey is required''))
   \<and> (\<not> falsy (opt_url (given options)) \<and> \<not> falsy (opt_consumerKey (given options))
        \<and> falsy (opt_consumerSecret (given options)) \<longrightarrow>
      constructor options = Inl (OptionsException ''consumerSecret is required''))
   \<and> (constructor options = Inl e \<longrightarrow>
        exc_name e = ''Options Error''
        \<and> construct_then_perform env options op = Inl e)
   \<and> ((\<exists>e. constructor options = Inl e) \<longleftrightarrow>
        (falsy (opt_url (given options)) \<or> falsy (opt_consumerKey (given options))
         \<or> falsy (opt_consumerSecret (given options))))
   \<and> (constructor options = Inr c \<longrightarrow>
        this_url c \<noteq> [] \<and> this_consumerKey c \<noteq> [] \<and> this_consumerSecret c \<noteq> []
        \<and> construct_then_perform env options op = Inr (perform env c op))"
proof (intro conjI impI)
  show "constructor options = Inl (OptionsException ''url is required'')"
    if "falsy (opt_url (given options))"
    using that by (simp add: constructor_given)
  show "constructor options = Inl (OptionsException ''consumerKey is required'')"
    if "\<not> falsy (opt_url (given options)) \<and> falsy (opt_consumerKey (given options))"
    using that by (simp add: constructor_given)
  show "constructor options = Inl (OptionsException ''consumerSecret is required'')"
    if "\<not> falsy (opt_url (given options)) \<and> \<not> falsy (opt_consumerKey (given options))
        \<and> falsy (opt_consumerSecret (given options))"
    using that by (simp add: constructor_given)
  show "(\<exists>e. constructor options = Inl e) \<longleftrightarrow>
        (falsy (opt_url (given options)) \<or> falsy (opt_consumerKey (given options))
         \<or> falsy (opt_consumerSecret (given options)))"
    by (simp add: constructor_given)
next
  assume l: "constructor options = Inl e"
  then show "exc_name e = ''Options Error''"
    by (auto simp: constructor_given OptionsException_def split: if_splits)
  show "construct_then_perform env options op = Inl e"
    using l by (simp add: construct_then_perform_def)
next
  assume r: "constructor options = Inr c"
  then have c: "c = setDefaultsOptions ''1.0.2'' (given options)"
    and ok: "\<not> falsy (opt_url (given options))" "\<not> falsy (opt_consumerKey (given options))"
      "\<not> falsy (opt_consumerSecret (given options))"
    by (auto simp: constructor_given split: if_splits)
  show "this_url c \<noteq> []" "this_consumerKey c \<noteq> []" "this_consumerSecret c \<noteq> []"
    using ok by (simp_all add: c setDefaultsOptions_def present_or_not_falsy)
  show "construct_then_perform env options op = Inr (perform env c op)"
    using r by (simp add: construct_then_perform_def)
qed

text \<open>
  The hypotheses of C9 hold for options without \<open>consumerSecret\<close>, for no options at all,
  and for complete options.
\<close>

theorem constructor_required_options_witness:
  "falsy (opt_consumerSecret (given (Some ((shop_options ''http://shop.test'')\<lparr>opt_consumerSecret := None\<rparr>))))
   \<and> constructor (Some ((shop_options ''http://shop.test'')\<lparr>opt_consumerSecret := None\<rparr>))
       = Inl \<lparr>exc_name = ''Options Error'', exc_message = ''consumerSecret is required''\<rparr>
   \<and> construct_then_perform plain_externals
         (Some ((shop_options ''http://shop.test'')\<lparr>opt_consumerSecret := None\<rparr>))
         (Get ''products'' [])
       = Inl \<lparr>exc_name = ''Options Error'', exc_message = ''consumerSecret is required''\<rparr>
   \<and> constructor None = Inl \<lparr>exc_name = ''Options Error'', exc_message = ''url is required''\<rparr>
   \<and> constructor (Some (shop_options ''http://shop.test''))
       = Inr (setDefaultsOptions ''1.0.2'' (shop_options ''http://shop.test''))
   \<and> construct_then_perform plain_externals (Some (shop_options ''http://shop.test''))
         (Get ''products'' [])
       = Inr (perform plain_externals (setDefaultsOptions ''1.0.2'' (shop_options ''http://shop.test''))
                (Get ''products'' []))"
proof -
  let ?bad = "Some ((shop_options ''http://shop.test'')\<lparr>opt_consumerSecret := None\<rparr>)"
  let ?good = "Some (shop_options ''http://shop.test'')"
  have f: "\<not> falsy (opt_url (given ?bad))" "\<not> falsy (opt_consumerKey (given ?bad))"
    "falsy (opt_consumerSecret (given ?bad))" "falsy (opt_url (given None))"
    by (simp_all add: given_def shop_options_def no_options_def falsy_def)
  have g: "constructor ?good = Inr (setDefaultsOptions ''1.0.2'' (shop_options ''http://shop.test''))"
    by (simp add: constructor_given given_def shop_options_def no_options_def falsy_def)
  show ?thesis
    using f g
      constructor_required_options [of ?bad "OptionsException ''consumerSecret is required''"
        plain_externals "Get ''products'' []"]
      constructor_required_options [of None]
      constructor_required_options [of ?good _ plain_externals "Get ''products'' []"
        "setDefaultsOptions ''1.0.2'' (shop_options ''http://shop.test'')"]
    by (simp add: OptionsException_def)
qed

section \<open>Properties of the request dispatcher\<close>

lemma keyset_assign_all: "fst ` set (assign_all q ws) = fst ` set q \<union> fst ` set ws"
  by (induction ws arbitrary: q) (auto simp: assign_all_Nil assign_all_Cons keyset_set_prop)

lemma keyset_spread: "fst ` set (spread a b) = fst ` set a \<union> fst ` set b"
  by (simp add: spread_def keyset_assign_all)

lemma distinct_set_prop: "distinct (map fst q) \<Longrightarrow> distinct (map fst (set_prop k v q))"
  by (simp add: keys_set_prop)

lemma map_of_spread: "map_of (spread a b) = map_of (rev a) ++ map_of (rev b)"
  by (simp add: spread_def map_of_assign_all)

lemma map_of_rev_distinct: "distinct (map fst a) \<Longrightarrow> map_of (rev a) = map_of a"
  using map_of_inject_set [of "rev a" a] by (simp add: rev_map [symmetric])

lemma map_of_absent: "k \<notin> fst ` set b \<Longrightarrow> map_of b k = None"
  by (simp add: map_of_eq_None_iff)

lemma spread_left:
  "k \<notin> fst ` set b \<Longrightarrow> distinct (map fst a) \<Longrightarrow> map_of (spread a b) k = map_of a k"
  by (simp add: map_of_spread map_add_def map_of_absent map_of_rev_distinct)

lemma spread_right:
  "distinct (map fst b) \<Longrightarrow> map_of b k = Some v \<Longrightarrow> map_of (spread a b) k = Some v"
  by (simp add: map_of_spread map_of_rev_distinct)

lemma spread_right_always:
  "distinct (map fst b) \<Longrightarrow> map_of (spread a b) k = (case map_of b k of Some v \<Rightarrow> Some v | None \<Rightarrow> map_of (rev a) k)"
  by (simp add: map_of_spread map_of_rev_distinct map_add_def)

lemma request_options_keys:
  "distinct (map fst (request_options env c method endpoint data params))"
  by (simp add: request_options_def Let_def keys_set_prop)

lemma request_options_params:
  "map_of (request_options env c method endpoint data params) ''params'' =
     Some (JObj (if this_isHttps c then spread (credential_params c) params
                 else oauth_authorize env (this_consumerKey c) (this_consumerSecret c)
                        (getUrl env c endpoint params) method))"
  by (simp add: request_options_def Let_def map_of_set_prop get_prop_def credential_params_def)

lemma request_options_auth:
  "map_of (request_options env c method endpoint data params) ''auth'' =
     (if this_isHttps c \<and> \<not> this_queryStringAuth c then Some (basic_auth c) else None)"
  by (simp add: request_options_def Let_def map_of_set_prop get_prop_def basic_auth_def)

lemma request_kept:
  assumes "k \<notin> fst ` set (this_axiosConfig c)"
  shows "map_of (request env c method endpoint data params) k
         = map_of (request_options env c method endpoint data params) k"
    and "map_of (request_part_000 env c method endpoint data params) k
         = map_of (request_options env c method endpoint data params) k"
proof -
  let ?opts = "request_options env c method endpoint data params"
  have d: "distinct (map fst ?opts)" by (rule request_options_keys)
  show "map_of (request env c method endpoint data params) k = map_of ?opts k"
    unfolding request_def by (rule spread_left [OF assms d])
  have "map_of (rev (this_axiosConfig c)) k = None"
    using assms by (simp add: map_of_absent)
  then show "map_of (request_part_000 env c method endpoint data params) k = map_of ?opts k"
    unfolding request_part_000_def
    by (simp add: spread_right_always [OF d] split: option.splits)
qed

lemma request_part_000_computed_wins:
  "map_of (request_options env c method endpoint data params) k = Some v \<Longrightarrow>
   map_of (request_part_000 env c method endpoint data params) k = Some v"
  unfolding request_part_000_def by (rule spread_right [OF request_options_keys])

lemma request_overrides_win:
  "distinct (map fst (this_axiosConfig c)) \<Longrightarrow> map_of (this_axiosConfig c) k = Some v \<Longrightarrow>
   map_of (request env c method endpoint data params) k = Some v"
  unfolding request_def by (rule spread_right)

lemma request_options_defaults:
  "map_of (request_options env c method endpoint data params) ''timeout'' = Some (this_timeout c)"
  "map_of (request_options env c method endpoint data params) ''responseType'' = Some (JStr ''json'')"
  "map_of (request_options env c method endpoint data params) ''responseEncoding''
     = Some (JStr (this_encoding c))"
  "map_of (request_options env c method endpoint data params) ''method'' = Some (JStr method)"
  by (simp_all add: request_options_def Let_def map_of_set_prop)

lemma credential_params_keys: "distinct (map fst (credential_params c))"
  by (simp add: credential_params_def)

lemma https_client:
  "constructor (Some (https_options q ax)) = Inr (setDefaultsOptions ''1.0.2'' (https_options q ax))"
  "constructor_part_000 (Some (https_options q ax))
     = Inr (setDefaultsOptions ''1.0.4'' (https_options q ax))"
  by (simp_all add: constructor_def constructor_part_000_def given_def https_options_def
      shop_options_def no_options_def falsy_def)

lemma https_client_fields:
  "this_isHttps (setDefaultsOptions v (https_options q ax))"
  "this_queryStringAuth (setDefaultsOptions v (https_options q ax)) = q"
  "this_axiosConfig (setDefaultsOptions v (https_options q ax)) = ax"
  "this_consumerKey (setDefaultsOptions v (https_options q ax)) = ''ck_1''"
  "this_consumerSecret (setDefaultsOptions v (https_options q ax)) = ''cs_2''"
  "this_timeout (setDefaultsOptions v (https_options q ax)) = JUndefined"
proof -
  show "this_isHttps (setDefaultsOptions v (https_options q ax))"
    unfolding setDefaultsOptions_def https_options_def shop_options_def no_options_def
      present_or_def by (simp add: test_https_def to_lower_def)
qed (simp_all add: setDefaultsOptions_def https_options_def shop_options_def no_options_def
      present_or_def)

lemma http_client_fields:
  "\<not> this_isHttps (setDefaultsOptions v (shop_options ''http://shop.test''))"
  "this_axiosConfig (setDefaultsOptions v (shop_options ''http://shop.test'')) = []"
  "this_consumerKey (setDefaultsOptions v (shop_options ''http://shop.test'')) = ''ck_1''"
  "this_consumerSecret (setDefaultsOptions v (shop_options ''http://shop.test'')) = ''cs_2''"
proof -
  show "\<not> this_isHttps (setDefaultsOptions v (shop_options ''http://shop.test''))"
    unfolding setDefaultsOptions_def shop_options_def no_options_def
      present_or_def by (simp add: test_https_def to_lower_def)
qed (simp_all add: setDefaultsOptions_def shop_options_def no_options_def present_or_def)

lemma spread_eval:
  "spread [(''consumer_key'', JStr ''ck_1''), (''consumer_secret'', JStr ''cs_2'')] [(''page'', JNum 2)]
   = [(''consumer_key'', JStr ''ck_1''), (''consumer_secret'', JStr ''cs_2''), (''page'', JNum 2)]"
  "spread [] [(''page'', JNum 2)] = [(''page'', JNum 2)]"
  "spread [(''consumer_key'', JStr ''ck_1''), (''consumer_secret'', JStr ''cs_2'')]
     [(''consumer_key'', JStr ''mine'')]
   = [(''consumer_key'', JStr ''mine''), (''consumer_secret'', JStr ''cs_2'')]"
  "spread [] [(''consumer_key'', JStr ''mine'')] = [(''consumer_key'', JStr ''mine'')]"
  by (simp_all add: spread_def assign_all_def)

text \<open>
  Claim C2, as the code has it. Take a request whose transport overrides set neither
  \<open>params\<close> nor \<open>auth\<close>; the dispatched configuration is that of either source file. With
  HTTPS and \<open>queryStringAuth\<close> the query parameters are the configured \<open>consumer_key\<close> and
  \<open>consumer_secret\<close> overlaid by the caller's params, both keys are present, and there is
  no Basic-auth object. With HTTPS and no \<open>queryStringAuth\<close> the Basic-auth object holds
  the consumer key as user name and the consumer secret as password, and the query
  parameters are the caller's params alone: they hold \<open>consumer_key\<close> only if the caller
  supplied it. Without HTTPS the query parameters are the OAuth-signed parameter set
  for the built URL and the method.
\<close>

theorem request_auth_selection:
  assumes "''params'' \<notin> fst ` set (this_axiosConfig c)"
    and "''auth'' \<notin> fst ` set (this_axiosConfig c)"
    and "dispatched = request env c method endpoint data params
         \<or> dispatched = request_part_000 env c method endpoint data params"
  shows "(this_isHttps c \<and> this_queryStringAuth c \<longrightarrow>
           map_of dispatched ''params'' =
             Some (JObj (spread [(''consumer_key'', JStr (this_consumerKey c)),
                                 (''consumer_secret'', JStr (this_consumerSecret c))] params))
           \<and> ''consumer_key'' \<in> fst ` set
                 (spread [(''consumer_key'', JStr (this_consumerKey c)),
                          (''consumer_secret'', JStr (this_consumerSecret c))] params)
           \<and> ''consumer_secret'' \<in> fst ` set
                 (spread [(''consumer_key'', JStr (this_consumerKey c)),
                          (''consumer_secret'', JStr (this_consumerSecret c))] params)
           \<and> map_of dispatched ''auth'' = None)
       \<and> (this_isHttps c \<and> \<not> this_queryStringAuth c \<longrightarrow>
           map_of dispatched ''auth'' =
             Some (JObj [(''username'', JStr (this_consumerKey c)),
                         (''password'', JStr (this_consumerSecret c))])
           \<and> map_of dispatched ''params'' = Some (JObj (spread [] params))
           \<and> (''consumer_key'' \<in> fst ` set (spread [] params)
                \<longleftrightarrow> ''consumer_key'' \<in> fst ` set params))
       \<and> (\<not> this_isHttps c \<longrightarrow>
           map_of dispatched ''params'' =
             Some (JObj (oauth_authorize env (this_consumerKey c) (this_consumerSecret c)
                           (getUrl env c endpoint params) method)))"
proof -
  have p: "map_of dispatched ''params''
           = map_of (request_options env c method endpoint data params) ''params''"
    using assms(3) request_kept [OF assms(1)] by auto
  have a: "map_of dispatched ''auth''
           = map_of (request_options env c method endpoint data params) ''auth''"
    using assms(3) request_kept [OF assms(2)] by auto
  show ?thesis
    unfolding p a request_options_params request_options_auth
    by (simp add: credential_params_def basic_auth_def keyset_spread)
qed

text \<open>
  The hypotheses of C2 hold for the three example clients without transport overrides,
  one for each row of the decision table.
\<close>

theorem request_auth_selection_witness:
  "map_of (request plain_externals (setDefaultsOptions ''1.0.2'' (https_options True []))
             ''get'' ''products'' JNull [(''page'', JNum 2)]) ''params''
     = Some (JObj [(''consumer_key'', JStr ''ck_1''), (''consumer_secret'', JStr ''cs_2''),
                   (''page'', JNum 2)])
   \<and> map_of (request plain_externals (setDefaultsOptions ''1.0.2'' (https_options True []))
             ''get'' ''products'' JNull [(''page'', JNum 2)]) ''auth'' = None
   \<and> map_of (request_part_000 plain_externals (setDefaultsOptions ''1.0.4'' (https_options False []))
             ''get'' ''products'' JNull [(''page'', JNum 2)]) ''auth''
     = Some (JObj [(''username'', JStr ''ck_1''), (''password'', JStr ''cs_2'')])
   \<and> map_of (request_part_000 plain_externals (setDefaultsOptions ''1.0.4'' (https_options False []))
             ''get'' ''products'' JNull [(''page'', JNum 2)]) ''params''
     = Some (JObj [(''page'', JNum 2)])
   \<and> map_of (request plain_externals (setDefaultsOptions ''1.0.2'' (shop_options ''http://shop.test''))
             ''get'' ''products'' JNull [(''page'', JNum 2)]) ''params''
     = Some (JObj (oauth_authorize plain_externals ''ck_1'' ''cs_2''
                     ''http://shop.test/wp-json/wc/v3/products?page=2'' ''get''))"
proof -
  let ?q = "setDefaultsOptions ''1.0.2'' (https_options True [])"
  let ?b = "setDefaultsOptions ''1.0.4'' (https_options False [])"
  let ?h = "setDefaultsOptions ''1.0.2'' (shop_options ''http://shop.test'')"
  have u: "getUrl plain_externals ?h ''products'' [(''page'', JNum 2)]
           = ''http://shop.test/wp-json/wc/v3/products?page=2''"
    by code_simp
  show ?thesis
    using
      request_auth_selection [of ?q "request plain_externals ?q ''get'' ''products'' JNull [(''page'', JNum 2)]"
        plain_externals "''get''" "''products''" JNull "[(''page'', JNum 2)]"]
      request_auth_selection [of ?b "request_part_000 plain_externals ?b ''get'' ''products'' JNull [(''page'', JNum 2)]"
        plain_externals "''get''" "''products''" JNull "[(''page'', JNum 2)]"]
      request_auth_selection [of ?h "request plain_externals ?h ''get'' ''products'' JNull [(''page'', JNum 2)]"
        plain_externals "''get''" "''products''" JNull "[(''page'', JNum 2)]"]
    by (simp add: https_client_fields http_client_fields spread_eval u)
qed

text \<open>
  Claim C2 as stated fails when the caller's own params hold \<open>consumer_key\<close>: an HTTPS
  client without \<open>queryStringAuth\<close> dispatches the Basic-auth object and the
  \<open>consumer_key\<close> query parameter of the caller together.
\<close>

theorem request_caller_consumer_key_counterexample:
  "map_sum exc_message
     (\<lambda>c. (this_isHttps c, this_queryStringAuth c,
            get_prop (request plain_externals c ''get'' ''products'' JNull
                        [(''consumer_key'', JStr ''mine'')]) ''auth'',
            get_prop (request plain_externals c ''get'' ''products'' JNull
                        [(''consumer_key'', JStr ''mine'')]) ''params''))
     (constructor (Some (https_options False [])))
   = Inr (True, False,
          JObj [(''username'', JStr ''ck_1''), (''password'', JStr ''cs_2'')],
          JObj [(''consumer_key'', JStr ''mine'')])"
  by (simp add: https_client https_client_fields get_prop_def
      request_kept request_options_params request_options_auth
      credential_params_def basic_auth_def spread_eval)

text \<open>
  Claim C10, as the code has it. For every HTTPS client and every well-formed params
  object, the query parameters that \<open>#request\<close> computes are the credential parameters
  overlaid by the caller's params: a key of the caller has the caller's value, so with
  \<open>queryStringAuth\<close> a caller's \<open>consumer_key\<close> or \<open>consumer_secret\<close> replaces the configured
  one. The second source file always dispatches these parameters; \<open>index.js\<close> dispatches
  them unless the transport overrides have a \<open>params\<close> of their own.
\<close>

theorem caller_params_override_credentials:
  assumes "this_isHttps c" and "distinct (map fst params)"
  shows "map_of (request_options env c method endpoint data params) ''params''
           = Some (JObj (spread (credential_params c) params))
       \<and> map_of (spread (credential_params c) params) k
           = (case map_of params k of Some v \<Rightarrow> Some v | None \<Rightarrow> map_of (credential_params c) k)
       \<and> (this_queryStringAuth c \<and> map_of params ''consumer_key'' = Some v \<longrightarrow>
            map_of (spread (credential_params c) params) ''consumer_key'' = Some v)
       \<and> (this_queryStringAuth c \<and> map_of params ''consumer_secret'' = Some v \<longrightarrow>
            map_of (spread (credential_params c) params) ''consumer_secret'' = Some v)
       \<and> map_of (request_part_000 env c method endpoint data params) ''params''
           = Some (JObj (spread (credential_params c) params))
       \<and> (''params'' \<notin> fst ` set (this_axiosConfig c) \<longrightarrow>
            map_of (request env c method endpoint data params) ''params''
              = Some (JObj (spread (credential_params c) params)))"
proof -
  have o: "map_of (request_options env c method endpoint data params) ''params''
           = Some (JObj (spread (credential_params c) params))"
    using assms(1) by (simp add: request_options_params)
  have m: "map_of (spread (credential_params c) params) k
           = (case map_of params k of Some v \<Rightarrow> Some v | None \<Rightarrow> map_of (credential_params c) k)" for k
    by (simp add: spread_right_always [OF assms(2)] map_of_rev_distinct [OF credential_params_keys]
        split: option.split)
  have p: "map_of (request_part_000 env c method endpoint data params) ''params''
           = Some (JObj (spread (credential_params c) params))"
    by (rule request_part_000_computed_wins [OF o])
  have r: "map_of (request env c method endpoint data params) ''params''
              = Some (JObj (spread (credential_params c) params))"
    if "''params'' \<notin> fst ` set (this_axiosConfig c)"
    using request_kept(1) [OF that] o by simp
  show ?thesis
    using o m p r by simp
qed

text \<open>
  The hypotheses of C10 hold for the HTTPS client with \<open>queryStringAuth\<close> and the caller's
  params \<open>{consumer_key: 'mine'}\<close>.
\<close>

theorem caller_params_override_credentials_witness:
  "this_isHttps (setDefaultsOptions ''1.0.2'' (https_options True []))
   \<and> map_of (request plain_externals (setDefaultsOptions ''1.0.2'' (https_options True []))
             ''get'' ''products'' JNull [(''consumer_key'', JStr ''mine'')]) ''params''
      = Some (JObj [(''consumer_key'', JStr ''mine''), (''consumer_secret'', JStr ''cs_2'')])
   \<and> map_of (request_part_000 plain_externals (setDefaultsOptions ''1.0.2'' (https_options True []))
             ''get'' ''products'' JNull [(''consumer_key'', JStr ''mine'')]) ''params''
      = Some (JObj [(''consumer_key'', JStr ''mine''), (''consumer_secret'', JStr ''cs_2'')])"
  using caller_params_override_credentials
          [of "setDefaultsOptions ''1.0.2'' (https_options True [])"
              "[(''consumer_key'', JStr ''mine'')]" plain_externals "''get''" "''products''" JNull]
  by (simp add: https_client_fields credential_params_def spread_eval)

text \<open>
  Claim C10 as stated fails in \<open>index.js\<close> when the transport overrides hold \<open>params\<close>: they
  replace the computed query parameters whole, the caller's \<open>consumer_key\<close> included.
\<close>

theorem request_params_overridden_counterexample:
  "map_sum exc_message
     (\<lambda>c. (this_isHttps c, this_queryStringAuth c,
            get_prop (request plain_externals c ''get'' ''products'' JNull
                        [(''consumer_key'', JStr ''mine'')]) ''params''))
     (constructor (Some (https_options True [(''params'', JObj [(''page'', JNum 1)])])))
   = Inr (True, True, JObj [(''page'', JNum 1)])"
proof -
  let ?c = "setDefaultsOptions ''1.0.2'' (https_options True [(''params'', JObj [(''page'', JNum 1)])])"
  have "map_of (request plain_externals ?c ''get'' ''products'' JNull
                        [(''consumer_key'', JStr ''mine'')]) ''params'' = Some (JObj [(''page'', JNum 1)])"
    by (rule request_overrides_win) (simp_all add: https_client_fields)
  then show ?thesis
    by (simp add: https_client https_client_fields get_prop_def)
qed

text \<open>
  Claim C7 in the two source files. In \<open>index.js\<close> every key of (well-formed) transport
  overrides is dispatched with the overrides' value. In the second source file the
  merge is the other way round: every key of the computed options is dispatched with
  the computed value, whatever the overrides say. With the overrides
  \<open>{responseType: 'text', timeout: 5000}\<close>, \<open>index.js\<close> dispatches \<open>'text'\<close> and \<open>5000\<close>, the
  second file \<open>'json'\<close> and \<open>undefined\<close>.
\<close>

theorem request_override_precedence:
  "(distinct (map fst (this_axiosConfig c)) \<and> map_of (this_axiosConfig c) k = Some v \<longrightarrow>
      map_of (request env c method endpoint data params) k = Some v)
   \<and> (map_of (request_options env c method endpoint data params) k = Some v \<longrightarrow>
      map_of (request_part_000 env c method endpoint data params) k = Some v)
   \<and> map_sum exc_message
       (\<lambda>c. (get_prop (request plain_externals c ''get'' ''products'' JNull []) ''responseType'',
              get_prop (request plain_externals c ''get'' ''products'' JNull []) ''timeout''))
       (constructor
          (Some (https_options False [(''responseType'', JStr ''text''), (''timeout'', JNum 5000)])))
     = Inr (JStr ''text'', JNum 5000)
   \<and> map_sum exc_message
       (\<lambda>c. (get_prop (request_part_000 plain_externals c ''get'' ''products'' JNull []) ''responseType'',
              get_prop (request_part_000 plain_externals c ''get'' ''products'' JNull []) ''timeout''))
       (constructor_part_000
          (Some (https_options False [(''responseType'', JStr ''text''), (''timeout'', JNum 5000)])))
     = Inr (JStr ''json'', JUndefined)"
proof (intro conjI impI)
  show "map_of (request env c method endpoint data params) k = Some v"
    if "distinct (map fst (this_axiosConfig c)) \<and> map_of (this_axiosConfig c) k = Some v"
    using that by (simp add: request_overrides_win)
  show "map_of (request_part_000 env c method endpoint data params) k = Some v"
    if "map_of (request_options env c method endpoint data params) k = Some v"
    using that by (rule request_part_000_computed_wins)
next
  let ?ax = "[(''responseType'', JStr ''text''), (''timeout'', JNum 5000)]"
  let ?c = "setDefaultsOptions ''1.0.2'' (https_options False ?ax)"
  have "map_of (request plain_externals ?c ''get'' ''products'' JNull []) ''responseType'' = Some (JStr ''text'')"
    "map_of (request plain_externals ?c ''get'' ''products'' JNull []) ''timeout'' = Some (JNum 5000)"
    by (rule request_overrides_win; simp add: https_client_fields)+
  then show "map_sum exc_message
       (\<lambda>c. (get_prop (request plain_externals c ''get'' ''products'' JNull []) ''responseType'',
              get_prop (request plain_externals c ''get'' ''products'' JNull []) ''timeout''))
       (constructor (Some (https_options False ?ax)))
     = Inr (JStr ''text'', JNum 5000)"
    by (simp add: https_client get_prop_def)
next
  let ?ax = "[(''responseType'', JStr ''text''), (''timeout'', JNum 5000)]"
  let ?c = "setDefaultsOptions ''1.0.4'' (https_options False ?ax)"
  have "map_of (request_part_000 plain_externals ?c ''get'' ''products'' JNull []) ''responseType'' = Some (JStr ''json'')"
    "map_of (request_part_000 plain_externals ?c ''get'' ''products'' JNull []) ''timeout'' = Some JUndefined"
    by (rule request_part_000_computed_wins; simp add: request_options_defaults https_client_fields)+
  then show "map_sum exc_message
       (\<lambda>c. (get_prop (request_part_000 plain_externals c ''get'' ''products'' JNull []) ''responseType'',
              get_prop (request_part_000 plain_externals c ''get'' ''products'' JNull []) ''timeout''))
       (constructor_part_000 (Some (https_options False ?ax)))
     = Inr (JStr ''json'', JUndefined)"
    by (simp add: https_client get_prop_def)
qed

text \<open>
  The hypotheses of C7 hold for the overrides \<open>{timeout: 5000}\<close>, in each file.
\<close>

theorem request_override_precedence_witness:
  "distinct (map fst (this_axiosConfig (setDefaultsOptions ''1.0.2'' (https_options False [(''timeout'', JNum 5000)]))))
   \<and> map_of (this_axiosConfig (setDefaultsOptions ''1.0.2'' (https_options False [(''timeout'', JNum 5000)])))
        ''timeout'' = Some (JNum 5000)
   \<and> map_of (request plain_externals
               (setDefaultsOptions ''1.0.2'' (https_options False [(''timeout'', JNum 5000)]))
               ''get'' ''products'' JNull []) ''timeout'' = Some (JNum 5000)
   \<and> map_of (request_options plain_externals
               (setDefaultsOptions ''1.0.4'' (https_options False [(''timeout'', JNum 5000)]))
               ''get'' ''products'' JNull []) ''timeout'' = Some JUndefined
   \<and> map_of (request_part_000 plain_externals
               (setDefaultsOptions ''1.0.4'' (https_options False [(''timeout'', JNum 5000)]))
               ''get'' ''products'' JNull []) ''timeout'' = Some JUndefined"
  using request_override_precedence
          [of "setDefaultsOptions ''1.0.2'' (https_options False [(''timeout'', JNum 5000)])"
              "''timeout''" "JNum 5000" plain_externals "''get''" "''products''" JNull "[]"]
        request_override_precedence
          [of "setDefaultsOptions ''1.0.4'' (https_options False [(''timeout'', JNum 5000)])"
              "''timeout''" JUndefined plain_externals "''get''" "''products''" JNull "[]"]
  by (simp add: https_client_fields request_options_defaults)

end
